theory Spec2Isabelle
  imports Complex_Main "HOL-Library.Multiset" "HOL-Library.AList" "HOL-Library.Extended_Nat"
begin

section \<open>JavaScript strings and numbers\<close>

text \<open>
  A JavaScript string is modelled as a \<^typ>\<open>string\<close>: one \<^typ>\<open>char\<close> per code unit,
  for code units in the range 0..255. Code units above 255 are outside the model.
  The levels, sizes and coordinates that the source obtains from \<open>parseInt\<close> are
  modelled exactly, as \<^typ>\<open>int\<close> (\<open>None\<close> for \<open>NaN\<close>); the source holds them as doubles,
  which are exact below \<open>2^53\<close>. The number of a slide entry, which decides the order of
  the slides, is modelled as the double itself (\<open>toNumber\<close> below).
\<close>

datatype error =
    RangeError | ArchiveError | XmlError | DocxError
  | ENOENT | ENOTDIR | EEXIST | EISDIR | EBUSY

definition nl :: char where
  "nl = CHR 0x0A"

text \<open>The white space and line terminators that \<open>trim\<close> and \<open>parseInt\<close> skip.\<close>

definition isWs :: "char \<Rightarrow> bool" where
  "isWs c = (c \<in> set [CHR 0x09, CHR 0x0A, CHR 0x0B, CHR 0x0C, CHR 0x0D, CHR 0x20, CHR 0xA0])"

definition trim :: "string \<Rightarrow> string" where
  "trim s = rev (dropWhile isWs (rev (dropWhile isWs s)))"

definition isDigit :: "char \<Rightarrow> bool" where
  "isDigit c = (c \<in> set ''0123456789'')"

definition digitVal :: "char \<Rightarrow> nat" where
  "digitVal c = length (takeWhile (\<lambda>d. d \<noteq> c) ''0123456789'')"

definition natOfDigits :: "string \<Rightarrow> nat" where
  "natOfDigits ds = foldl (\<lambda>a c. 10 * a + digitVal c) 0 ds"

text \<open>\<open>parseInt(s, 10)\<close>: leading white space, an optional sign, the longest run of digits.\<close>

definition parseInt :: "string \<Rightarrow> int option" where
  "parseInt s =
     (let t = dropWhile isWs s;
          neg = (take 1 t = ''-'');
          u = (if take 1 t = ''-'' \<or> take 1 t = ''+'' then drop 1 t else t);
          ds = takeWhile isDigit u
      in if ds = [] then None
         else Some (if neg then - int (natOfDigits ds) else int (natOfDigits ds)))"

text \<open>The decimal numeral of a natural number, as a template literal prints it.\<close>

fun showNat :: "nat \<Rightarrow> string" where
  "showNat n =
     (if n < 10 then [''0123456789'' ! n]
      else showNat (n div 10) @ [''0123456789'' ! (n mod 10)])"

declare showNat.simps [simp del]

text \<open>\<open>String.prototype.split\<close> with a one-character separator.\<close>

fun split :: "char \<Rightarrow> string \<Rightarrow> string list" where
  "split c [] = [[]]"
| "split c (x # xs) =
     (if x = c then [] # split c xs
      else (case split c xs of [] \<Rightarrow> [[x]] | y # ys \<Rightarrow> (x # y) # ys))"

text \<open>\<open>Array.prototype.join\<close> on an array of strings.\<close>

fun join :: "string \<Rightarrow> string list \<Rightarrow> string" where
  "join sep [] = []"
| "join sep [x] = x"
| "join sep (x # y # ys) = x @ sep @ join sep (y # ys)"

text \<open>
  \<open>String.prototype.repeat\<close>: \<open>NaN\<close> counts as zero, a negative count throws a
  \<open>RangeError\<close>. The engine's limit on the length of a string is not modelled.
\<close>

definition repeat :: "string \<Rightarrow> int option \<Rightarrow> error + string" where
  "repeat s cnt =
     (case cnt of
        None \<Rightarrow> Inr []
      | Some n \<Rightarrow> if n < 0 then Inl RangeError else Inr (concat (replicate (nat n) s)))"

text \<open>A loop that calls a throwing function on every element, in order.\<close>

fun forEach :: "('a \<Rightarrow> error + 'b) \<Rightarrow> 'a list \<Rightarrow> error + 'b list" where
  "forEach f [] = Inr []"
| "forEach f (x # xs) =
     (case f x of
        Inl e \<Rightarrow> Inl e
      | Inr y \<Rightarrow> (case forEach f xs of Inl e \<Rightarrow> Inl e | Inr ys \<Rightarrow> Inr (y # ys)))"

section \<open>Parsed XML\<close>

text \<open>
  The value that the XML parser hands to the converter (\<open>XmlNode = Record<string, any>\<close>):
  a string, an array or an object with string keys. \<open>undefined\<close> and \<open>null\<close> are
  \<open>None\<close> of \<^typ>\<open>'a option\<close>; the parser puts neither into an array or an object.
\<close>

datatype xml = XStr string | XArr "xml list" | XObj "(string \<times> xml) list"

text \<open>
  Property access \<open>v[k]\<close> for the keys the source uses (element and attribute names,
  \<open>$\<close> and \<open>_\<close>): a string or an array has none of them, and none of them is the name
  of a property that a value inherits from its prototype.
\<close>

fun propOf :: "xml \<Rightarrow> string \<Rightarrow> xml option" where
  "propOf (XObj kvs) k = map_of kvs k"
| "propOf (XArr xs) k = None"
| "propOf (XStr s) k = None"

text \<open>Optional chaining \<open>v?.[k]\<close>.\<close>

fun oprop :: "xml option \<Rightarrow> string \<Rightarrow> xml option" where
  "oprop None k = None"
| "oprop (Some v) k = propOf v k"

text \<open>What \<open>if (v)\<close> and \<open>!v\<close> test: only \<open>undefined\<close> and the empty string are falsy.\<close>

fun truthy :: "xml option \<Rightarrow> bool" where
  "truthy None = False"
| "truthy (Some (XStr s)) = (s \<noteq> [])"
| "truthy (Some (XArr xs)) = True"
| "truthy (Some (XObj kvs)) = True"

text \<open>The idiom \<open>[].concat(v ?? [])\<close>: an array gives its elements, another value itself.\<close>

fun arrayOf :: "xml option \<Rightarrow> xml list" where
  "arrayOf None = []"
| "arrayOf (Some (XArr xs)) = xs"
| "arrayOf (Some v) = [v]"

text \<open>\<open>cur[0]\<close> on an array.\<close>

fun first :: "xml list \<Rightarrow> xml option" where
  "first [] = None"
| "first (x # xs) = Some x"

text \<open>\<open>ToString\<close>, as string concatenation, \<open>join\<close> and \<open>parseInt\<close> apply it.\<close>

fun toStr :: "xml \<Rightarrow> string" where
  "toStr (XStr s) = s"
| "toStr (XArr xs) = join '','' (map toStr xs)"
| "toStr (XObj kvs) = ''[object Object]''"

text \<open>\<^verbatim>\<open>get(obj, ...keys)\<close>: the loop over \<open>keys\<close>, then the final unwrapping.\<close>

fun get :: "xml option \<Rightarrow> string list \<Rightarrow> xml option" where
  "get cur [] = (case cur of Some (XArr xs) \<Rightarrow> first xs | _ \<Rightarrow> cur)"
| "get cur (k # ks) =
     (case cur of
        None \<Rightarrow> None
      | Some (XArr xs) \<Rightarrow> get (oprop (first xs) k) ks
      | Some v \<Rightarrow> get (propOf v k) ks)"

section \<open>Slide decks to Markdown\<close>

text \<open>
  The Markdown variant of the converter, the first of the three versions of
  \<^verbatim>\<open>convert.ts\<close>: \<^verbatim>\<open>parseParagraph\<close>, \<^verbatim>\<open>paragraphsToMarkdown\<close>, \<^verbatim>\<open>parseSlideDoc\<close>,
  \<^verbatim>\<open>parseNotesDoc\<close> and \<^verbatim>\<open>convertPptx\<close>.
\<close>

record ParsedParagraph =
  ptext :: string
  level :: "int option"

text \<open>The text of one run: its \<open>a:t\<close> children, each a string or an object with \<open>_\<close>.\<close>

definition tText :: "xml \<Rightarrow> string" where
  "tText t =
     (case t of
        XStr s \<Rightarrow> s
      | _ \<Rightarrow> (case propOf t ''_'' of None \<Rightarrow> [] | Some v \<Rightarrow> toStr v))"

definition runText :: "xml \<Rightarrow> string" where
  "runText run = concat (map tText (arrayOf (propOf run ''a:t'')))"

definition parseParagraph :: "xml \<Rightarrow> ParsedParagraph" where
  "parseParagraph para =
     (case para of
        XStr s \<Rightarrow> \<lparr>ptext = [], level = Some 0\<rparr>
      | _ \<Rightarrow>
          (let pPr = get (Some para) [''a:pPr''];
               lvl = oprop (oprop pPr ''$'') ''lvl'';
               runs = arrayOf (propOf para ''a:r'') @ arrayOf (propOf para ''a:fld'')
           in \<lparr>ptext = concat (map runText runs),
               level = (case lvl of
                          None \<Rightarrow> Some 0
                        | Some v \<Rightarrow> if truthy lvl then parseInt (toStr v) else Some 0)\<rparr>))"

text \<open>
  The replacement \<open>.replace(/\n{3,}/g, '\n\n')\<close>: scanning from the left, a maximal run
  of three or more line feeds is matched whole (the quantifier is greedy) and replaced;
  any other character is copied.
\<close>

function replaceNewlineRuns :: "string \<Rightarrow> string" where
  "replaceNewlineRuns [] = []"
| "replaceNewlineRuns (c # cs) =
     (if 3 \<le> length (takeWhile (\<lambda>x. x = nl) (c # cs))
      then [nl, nl] @ replaceNewlineRuns (dropWhile (\<lambda>x. x = nl) (c # cs))
      else c # replaceNewlineRuns cs)"
  by pat_completeness auto
termination
proof (relation "measure length")
  show "wf (measure length)" by simp
next
  fix c :: char and cs :: string
  assume "3 \<le> length (takeWhile (\<lambda>x. x = nl) (c # cs))"
  then have "c = nl"
    by (auto split: if_splits)
  then have "length (dropWhile (\<lambda>x. x = nl) (c # cs)) \<le> length cs"
    by (simp add: length_dropWhile_le)
  then show "(dropWhile (\<lambda>x. x = nl) (c # cs), c # cs) \<in> measure length"
    by simp
next
  fix c :: char and cs :: string
  show "(cs, c # cs) \<in> measure length" by simp
qed

declare replaceNewlineRuns.simps [simp del]

text \<open>One iteration of the loop of \<^verbatim>\<open>paragraphsToMarkdown\<close>: the line pushed.\<close>

definition mdLine :: "xml \<Rightarrow> error + string" where
  "mdLine para =
     (let p = parseParagraph para
      in if trim (ptext p) = [] then Inr []
         else (case repeat ''  '' (level p) of
                 Inl e \<Rightarrow> Inl e
               | Inr indent \<Rightarrow> Inr (indent @ ''- '' @ ptext p)))"

definition paragraphsToMarkdown :: "xml list \<Rightarrow> error + string" where
  "paragraphsToMarkdown paragraphs =
     (case forEach mdLine paragraphs of
        Inl e \<Rightarrow> Inl e
      | Inr lines \<Rightarrow> Inr (replaceNewlineRuns (join [nl] lines)))"

record SlideData =
  title :: string
  bodyBlocks :: "string list"

text \<open>The pieces of one iteration of the loop over the shapes of \<^verbatim>\<open>parseSlideDoc\<close>.\<close>

definition phType :: "xml \<Rightarrow> xml option" where
  "phType sp = oprop (oprop (get (Some sp) [''p:nvSpPr'', ''p:nvPr'', ''p:ph'']) ''$'') ''type''"

definition isTitle :: "xml \<Rightarrow> bool" where
  "isTitle sp =
     (phType sp = Some (XStr ''title'') \<or> phType sp = Some (XStr ''ctrTitle'')
      \<or> phType sp = Some (XStr ''subTitle''))"

definition txBodyOf :: "xml \<Rightarrow> xml option" where
  "txBodyOf sp = get (Some sp) [''p:txBody'']"

definition shapeParagraphs :: "xml \<Rightarrow> xml list" where
  "shapeParagraphs sp = arrayOf (oprop (txBodyOf sp) ''a:p'')"

definition shapeTexts :: "xml \<Rightarrow> string list" where
  "shapeTexts sp = filter (\<lambda>t. t \<noteq> []) (map (\<lambda>p. ptext (parseParagraph p)) (shapeParagraphs sp))"

fun slideLoop :: "xml list \<Rightarrow> SlideData \<Rightarrow> error + SlideData" where
  "slideLoop [] acc = Inr acc"
| "slideLoop (sp # sps) acc =
     (if \<not> truthy (txBodyOf sp) then slideLoop sps acc
      else if shapeTexts sp = [] then slideLoop sps acc
      else if isTitle sp \<and> title acc = []
        then slideLoop sps (acc\<lparr>title := join '' '' (shapeTexts sp)\<rparr>)
      else (case paragraphsToMarkdown (shapeParagraphs sp) of
              Inl e \<Rightarrow> Inl e
            | Inr block \<Rightarrow>
                if trim block \<noteq> []
                then slideLoop sps (acc\<lparr>bodyBlocks := bodyBlocks acc @ [block]\<rparr>)
                else slideLoop sps acc))"

definition slideShapes :: "xml option \<Rightarrow> xml list" where
  "slideShapes slideDoc =
     (let spTree = get slideDoc [''p:sld'', ''p:cSld'', ''p:spTree'']
      in if \<not> truthy spTree then [] else arrayOf (oprop spTree ''p:sp''))"

definition parseSlideDoc :: "xml option \<Rightarrow> error + SlideData" where
  "parseSlideDoc slideDoc =
     (let spTree = get slideDoc [''p:sld'', ''p:cSld'', ''p:spTree'']
      in if \<not> truthy spTree then Inr \<lparr>title = [], bodyBlocks = []\<rparr>
         else slideLoop (arrayOf (oprop spTree ''p:sp'')) \<lparr>title = [], bodyBlocks = []\<rparr>)"

definition phIdx :: "xml \<Rightarrow> xml option" where
  "phIdx sp = oprop (oprop (get (Some sp) [''p:nvSpPr'', ''p:nvPr'', ''p:ph'']) ''$'') ''idx''"

definition noteLinesOf :: "xml \<Rightarrow> string list" where
  "noteLinesOf sp =
     (if phIdx sp \<noteq> Some (XStr ''1'') then []
      else if \<not> truthy (txBodyOf sp) then []
      else filter (\<lambda>t. trim t \<noteq> [])
             (map (\<lambda>p. ptext (parseParagraph p)) (shapeParagraphs sp)))"

definition parseNotesDoc :: "xml option \<Rightarrow> string" where
  "parseNotesDoc notesDoc =
     (let spTree = get notesDoc [''p:notes'', ''p:cSld'', ''p:spTree'']
      in if \<not> truthy spTree then []
         else join [nl] (concat (map noteLinesOf (arrayOf (oprop spTree ''p:sp'')))))"

text \<open>
  An opened archive, \<open>zip.files\<close>: the entries by name, in the order of \<open>Object.keys\<close>,
  each name once. An entry is held by what the converter reads from it:
  \<open>asXml\<close> is \<open>parseStringPromise(await entry.async('string'))\<close> (\<open>Inl\<close> when either
  rejects, \<open>None\<close> for the parser's \<open>null\<close>), \<open>asBase64\<close> is \<open>entry.async('base64')\<close>.
  Every name that the source looks up in \<open>zip.files\<close> begins with \<open>ppt/\<close>, so a lookup
  finds an entry of the archive or nothing.
\<close>

record zipEntry =
  isDir :: bool
  asXml :: "error + xml option"
  asBase64 :: "error + string"

type_synonym zip = "(string \<times> zipEntry) list"

text \<open>The filter \<open>/^ppt\/slides\/slide\d+\.xml$/.test(f)\<close>.\<close>

definition isSlideKey :: "string \<Rightarrow> bool" where
  "isSlideKey f =
     (take 16 f = ''ppt/slides/slide''
      \<and> takeWhile isDigit (drop 16 f) \<noteq> []
      \<and> dropWhile isDigit (drop 16 f) = ''.xml'')"

text \<open>
  The Number that \<open>parseInt\<close> returns for a string of digits is a double: the natural
  number that the digits denote, rounded to a significand of 53 bits, to the nearest
  double and on a tie to the one with the even significand, and \<open>Infinity\<close> when the
  rounded value reaches \<open>2^1024\<close>. \<open>bitLength n\<close> is the number of binary digits of \<open>n\<close>;
  a finite double is its value, \<open>Infinity\<close> is \<open>\<infinity>\<close>. (Past the twentieth digit the
  language lets an engine approximate; Node rounds the exact number.)
\<close>

fun bitLength :: "nat \<Rightarrow> nat" where
  "bitLength n = (if n = 0 then 0 else Suc (bitLength (n div 2)))"

declare bitLength.simps [simp del]

definition toNumber :: "nat \<Rightarrow> enat" where
  "toNumber n =
     (let sh = bitLength n - 53;
          q = n div 2 ^ sh;
          r = n mod 2 ^ sh;
          q' = (if 2 ^ sh < 2 * r \<or> (2 * r = 2 ^ sh \<and> odd q) then q + 1 else q)
      in if 2 ^ 1024 \<le> q' * 2 ^ sh then \<infinity> else enat (q' * 2 ^ sh))"

text \<open>
  \<open>key.match(/slide(\d+)/)![1]\<close>: the digits after the first \<open>slide\<close> that digits follow.
  On a key without a match the source throws; no key that passed the filter is one.
  \<open>slideNum\<close> is the double that \<open>parseInt\<close> reads from them.
\<close>

fun slideDigits :: "string \<Rightarrow> string option" where
  "slideDigits [] = None"
| "slideDigits (c # cs) =
     (if take 5 (c # cs) = ''slide'' \<and> takeWhile isDigit (drop 5 (c # cs)) \<noteq> []
      then Some (takeWhile isDigit (drop 5 (c # cs)))
      else slideDigits cs)"

definition slideNum :: "string \<Rightarrow> enat" where
  "slideNum key = (case slideDigits key of None \<Rightarrow> 0 | Some ds \<Rightarrow> toNumber (natOfDigits ds))"

text \<open>
  The keys of the slides, sorted by the comparator \<open>slideNum(a) - slideNum(b)\<close>. The
  difference of two doubles is negative, zero or positive as the first is less than,
  equal to or greater than the second, and \<open>Infinity - Infinity\<close> is \<open>NaN\<close>, which the
  sort takes as zero: the keys are ordered by their doubles, and the sort of the engine
  is stable, as \<^const>\<open>sort_key\<close> is.
\<close>

definition slideKeys :: "zip \<Rightarrow> string list" where
  "slideKeys z = sort_key slideNum (filter isSlideKey (map fst z))"

definition notesKey :: "nat \<Rightarrow> string" where
  "notesKey n = ''ppt/notesSlides/notesSlide'' @ showNat n @ ''.xml''"

text \<open>The body of the loop of \<^verbatim>\<open>convertPptx\<close>: the section pushed for one slide.\<close>

definition renderSection :: "zip \<Rightarrow> nat \<Rightarrow> string \<Rightarrow> error + string" where
  "renderSection z n key =
     (case map_of z key of
        None \<Rightarrow> Inl ArchiveError
      | Some entry \<Rightarrow>
     (case asXml entry of
        Inl e \<Rightarrow> Inl e
      | Inr slideDoc \<Rightarrow>
     (case parseSlideDoc slideDoc of
        Inl e \<Rightarrow> Inl e
      | Inr sd \<Rightarrow>
     (case (case map_of z (notesKey n) of
              None \<Rightarrow> Inr []
            | Some ne \<Rightarrow> (case asXml ne of Inl e \<Rightarrow> Inl e | Inr d \<Rightarrow> Inr (parseNotesDoc d))) of
        Inl e \<Rightarrow> Inl e
      | Inr notes \<Rightarrow>
          (let heading = (if title sd \<noteq> [] then ''## '' @ title sd
                          else ''## Slide '' @ showNat n);
               parts = [heading]
                 @ (if bodyBlocks sd \<noteq> [] then [join [nl, nl] (bodyBlocks sd)] else [])
                 @ (if trim notes \<noteq> []
                    then [''**Notes:**'' @ [nl, nl]
                          @ join [nl] (map (\<lambda>l. ''> '' @ l) (split nl notes))]
                    else [])
           in Inr (join [nl, nl] parts))))))"

text \<open>The loop \<open>for (let i = 0; i < slideKeys.length; i++)\<close>, from index \<open>i\<close> on.\<close>

fun sectionsFrom :: "zip \<Rightarrow> nat \<Rightarrow> string list \<Rightarrow> error + string list" where
  "sectionsFrom z i [] = Inr []"
| "sectionsFrom z i (key # keys) =
     (case renderSection z (i + 1) key of
        Inl e \<Rightarrow> Inl e
      | Inr s \<Rightarrow> (case sectionsFrom z (i + 1) keys of
                    Inl e \<Rightarrow> Inl e
                  | Inr ss \<Rightarrow> Inr (s # ss)))"

definition sectionSeparator :: string where
  "sectionSeparator = [nl, nl] @ ''---'' @ [nl, nl]"

definition convertPptx :: "zip \<Rightarrow> error + string" where
  "convertPptx z =
     (case sectionsFrom z 0 (slideKeys z) of
        Inl e \<Rightarrow> Inl e
      | Inr sections \<Rightarrow> Inr (join sectionSeparator sections))"

section \<open>The path resolver\<close>

text \<open>
  \<^verbatim>\<open>resolveZipPath(fromKey, target)\<close> of the HTML-viewer variant. The \<open>for\<close> loop over
  \<open>parts\<close> is \<open>resolveLoop\<close>, with the array \<open>result\<close> as its accumulator:
  \<open>result.pop()\<close> on an empty array leaves it empty, as \<^const>\<open>butlast\<close> does.
\<close>

fun resolveLoop :: "string list \<Rightarrow> string list \<Rightarrow> string list" where
  "resolveLoop [] result = result"
| "resolveLoop (p # ps) result =
     (if p = ''..'' then resolveLoop ps (butlast result)
      else if p \<noteq> ''.'' then resolveLoop ps (result @ [p])
      else resolveLoop ps result)"

definition resolveZipPath :: "string \<Rightarrow> string \<Rightarrow> string" where
  "resolveZipPath fromKey target =
     (let dir = join ''/'' (butlast (split CHR ''/'' fromKey));
          parts = split CHR ''/'' (dir @ ''/'' @ target)
      in join ''/'' (resolveLoop parts []))"

text \<open>
  The resolver in the words of the specification: the directory portion of the base is
  what stands before its last separator (nothing when it has none); the fold pushes a
  segment, pops on \<open>..\<close> and drops \<open>.\<close>.
\<close>

definition dirPortion :: "string \<Rightarrow> string" where
  "dirPortion base = rev (drop 1 (dropWhile (\<lambda>c. c \<noteq> CHR ''/'') (rev base)))"

definition foldStep :: "string list \<Rightarrow> string \<Rightarrow> string list" where
  "foldStep stack seg =
     (if seg = ''..'' then butlast stack
      else if seg = ''.'' then stack
      else stack @ [seg])"

definition resolveSpec :: "string \<Rightarrow> string \<Rightarrow> string" where
  "resolveSpec base target =
     join ''/'' (foldl foldStep [] (split CHR ''/'' (dirPortion base @ ''/'' @ target)))"

section \<open>Slide decks to the HTML viewer\<close>

text \<open>
  The HTML-viewer variant, the third version of \<^verbatim>\<open>convert.ts\<close>: \<^verbatim>\<open>escapeHtml\<close>,
  \<^verbatim>\<open>getMimeType\<close>, \<^verbatim>\<open>getTransform\<close>, \<^verbatim>\<open>paragraphsToHtml\<close>, \<^verbatim>\<open>extractNotesText\<close>,
  \<^verbatim>\<open>extractSlideBackground\<close>, \<^verbatim>\<open>parseSlide\<close> and \<^verbatim>\<open>convertPptxToHtml\<close>.
\<close>

definition dq :: char where
  "dq = CHR 0x22"

text \<open>\<open>str.replace(/c/g, r)\<close> for a single character \<open>c\<close>.\<close>

definition replaceAll :: "char \<Rightarrow> string \<Rightarrow> string \<Rightarrow> string" where
  "replaceAll c r s = concat (map (\<lambda>x. if x = c then r else [x]) s)"

definition escapeHtml :: "string \<Rightarrow> string" where
  "escapeHtml str =
     replaceAll dq ''&quot;''
       (replaceAll CHR ''>'' ''&gt;''
         (replaceAll CHR ''<'' ''&lt;''
           (replaceAll CHR ''&'' ''&amp;'' str)))"

text \<open>\<open>toLowerCase\<close> on the letters A to Z; the model compares its results with ASCII
  extensions only.\<close>

definition toLower :: "char \<Rightarrow> char" where
  "toLower c =
     (case map_of (zip ''ABCDEFGHIJKLMNOPQRSTUVWXYZ'' ''abcdefghijklmnopqrstuvwxyz'') c of
        None \<Rightarrow> c
      | Some l \<Rightarrow> l)"

definition toLowerCase :: "string \<Rightarrow> string" where
  "toLowerCase s = map toLower s"

text \<open>
  The records that the source builds as object literals (\<open>rels\<close>, \<open>mediaCache\<close> and the
  table of \<^verbatim>\<open>getMimeType\<close>) are the maps of their own properties. Reading \<open>obj[key]\<close>
  finds an own property first and then the properties that every object literal
  inherits from \<open>Object.prototype\<close>: a function under eleven names and, under
  \<open>__proto__\<close>, the prototype itself. An assignment \<open>obj[key] = s\<close> of a string adds an
  own property, except under \<open>__proto__\<close>, where it runs the inherited setter, which
  ignores a value that is not an object.
\<close>

definition prototypeNames :: "string list" where
  "prototypeNames =
     [''constructor'', ''__defineGetter__'', ''__defineSetter__'', ''hasOwnProperty'',
      ''__lookupGetter__'', ''__lookupSetter__'', ''isPrototypeOf'', ''propertyIsEnumerable'',
      ''toString'', ''valueOf'', ''__proto__'', ''toLocaleString'']"

datatype jsval = JString string | JInherited string | JUndefined

definition getProp :: "(string \<rightharpoonup> string) \<Rightarrow> string \<Rightarrow> jsval" where
  "getProp obj key =
     (case obj key of
        Some v \<Rightarrow> JString v
      | None \<Rightarrow> if key \<in> set prototypeNames then JInherited key else JUndefined)"

definition setProp :: "(string \<rightharpoonup> string) \<Rightarrow> string \<Rightarrow> string \<Rightarrow> (string \<rightharpoonup> string)" where
  "setProp obj key v = (if key = ''__proto__'' then obj else obj(key \<mapsto> v))"

fun truthyVal :: "jsval \<Rightarrow> bool" where
  "truthyVal (JString s) = (s \<noteq> [])"
| "truthyVal (JInherited k) = True"
| "truthyVal JUndefined = False"

text \<open>
  The string that a template literal and a property key take from a value: the text of
  a native function as Node prints it, \<open>[object Object]\<close> for the prototype.
\<close>

fun textOf :: "jsval \<Rightarrow> string" where
  "textOf (JString s) = s"
| "textOf (JInherited k) =
     (if k = ''__proto__'' then ''[object Object]''
      else if k = ''constructor'' then ''function Object() { [native code] }''
      else ''function '' @ k @ ''() { [native code] }'')"
| "textOf JUndefined = ''undefined''"

text \<open>\<^verbatim>\<open>getMimeType\<close>: \<open>map[ext.toLowerCase()] ?? null\<close>, with \<^const>\<open>JUndefined\<close> for \<open>null\<close>.\<close>

definition getMimeType :: "string \<Rightarrow> jsval" where
  "getMimeType ext =
     getProp
       (map_of [(''png'', ''image/png''), (''jpg'', ''image/jpeg''), (''jpeg'', ''image/jpeg''),
                (''gif'', ''image/gif''), (''svg'', ''image/svg+xml''), (''webp'', ''image/webp''),
                (''bmp'', ''image/bmp''), (''tif'', ''image/tiff''), (''tiff'', ''image/tiff'')])
       (toLowerCase ext)"

text \<open>
  A shape of the viewer. The percentages are quotients of doubles in the source; the
  model computes them over the reals, without rounding and without the infinities of a
  division by zero (the converter never passes a zero slide size).
\<close>

record HtmlShape =
  xPct :: real
  yPct :: real
  wPct :: real
  hPct :: real
  inner :: string

record HtmlSlide =
  background :: string
  shapes :: "HtmlShape list"
  speakerNotes :: string

text \<open>\<open>parseInt(v, 10) || 0\<close> on an attribute that may be absent.\<close>

definition intOr0 :: "xml option \<Rightarrow> int" where
  "intOr0 v = (case v of None \<Rightarrow> 0 | Some x \<Rightarrow> (case parseInt (toStr x) of None \<Rightarrow> 0 | Some n \<Rightarrow> n))"

definition getTransform :: "xml \<Rightarrow> real \<Rightarrow> real \<Rightarrow> HtmlShape option" where
  "getTransform sp slideW slideH =
     (let xfrm = get (Some sp) [''p:spPr'', ''a:xfrm'']
      in if \<not> truthy xfrm then None
         else
           (let off = oprop (get xfrm [''a:off'']) ''$'';
                ext = oprop (get xfrm [''a:ext'']) ''$''
            in if \<not> truthy off \<or> \<not> truthy ext then None
               else Some \<lparr>xPct = of_int (intOr0 (oprop off ''x'')) / slideW * 100,
                          yPct = of_int (intOr0 (oprop off ''y'')) / slideH * 100,
                          wPct = of_int (intOr0 (oprop ext ''cx'')) / slideW * 100,
                          hPct = of_int (intOr0 (oprop ext ''cy'')) / slideH * 100,
                          inner = []\<rparr>))"

text \<open>
  The numeral of \<open>n / 100\<close>, as the template literal prints the font size. It is the
  numeral the engine prints while \<open>n\<close> has at most 15 digits.
\<close>

definition showHundredths :: "int \<Rightarrow> string" where
  "showHundredths n =
     (let a = nat (abs n); r = a mod 100
      in (if n < 0 then ''-'' else [])
         @ showNat (a div 100)
         @ (if r = 0 then []
            else if r mod 10 = 0 then ''.'' @ showNat (r div 10)
            else ''.'' @ showNat (r div 10) @ showNat (r mod 10)))"

definition runColor :: "xml option \<Rightarrow> string" where
  "runColor rPr =
     (let solidFill = get (case rPr of None \<Rightarrow> Some (XObj []) | Some v \<Rightarrow> rPr) [''a:solidFill'']
      in if \<not> truthy solidFill then []
         else
           (let val = oprop (oprop (get solidFill [''a:srgbClr'']) ''$'') ''val'';
                lastClr = oprop (oprop (get solidFill [''a:sysClr'']) ''$'') ''lastClr''
            in if truthy val then ''#'' @ toStr (the val)
               else if truthy lastClr then ''#'' @ toStr (the lastClr)
               else []))"

definition runHtml :: "xml \<Rightarrow> string" where
  "runHtml run =
     (let txt = runText run
      in if txt = [] then []
         else
           (let rPr = get (Some run) [''a:rPr''];
                attrs = oprop rPr ''$'';
                bold = (oprop attrs ''b'' = Some (XStr ''1''));
                italic = (oprop attrs ''i'' = Some (XStr ''1''));
                underline = (truthy (oprop attrs ''u'') \<and> oprop attrs ''u'' \<noteq> Some (XStr ''none''));
                szRaw = oprop attrs ''sz'';
                fontSize = (if truthy szRaw then parseInt (toStr (the szRaw)) else None);
                color = runColor rPr;
                style = (if bold then ''font-weight:bold;'' else [])
                  @ (if italic then ''font-style:italic;'' else [])
                  @ (if underline then ''text-decoration:underline;'' else [])
                  @ (case fontSize of
                       None \<Rightarrow> []
                     | Some n \<Rightarrow> if n = 0 then [] else ''font-size:'' @ showHundredths n @ ''pt;'')
                  @ (if color \<noteq> [] then ''color:'' @ color @ '';'' else []);
                safe = escapeHtml txt
            in if style \<noteq> [] then ''<span style='' @ [dq] @ style @ [dq] @ ''>'' @ safe @ ''</span>''
               else safe))"

definition paragraphHtml :: "xml \<Rightarrow> string" where
  "paragraphHtml para =
     (let algn = oprop (oprop (get (Some para) [''a:pPr'']) ''$'') ''algn'';
          alignCss = (if algn = Some (XStr ''ctr'') then ''text-align:center;''
                      else if algn = Some (XStr ''r'') then ''text-align:right;''
                      else if algn = Some (XStr ''just'') then ''text-align:justify;''
                      else []);
          runs = arrayOf (propOf para ''a:r'') @ arrayOf (propOf para ''a:fld'')
      in if runs = [] then ''<p style='' @ [dq] @ ''margin:0;line-height:1.3;'' @ [dq] @ ''>&nbsp;</p>''
         else
           (let html = concat (map runHtml runs)
            in ''<p style='' @ [dq] @ ''margin:0;line-height:1.3;'' @ alignCss @ [dq] @ ''>''
               @ (if html \<noteq> [] then html else ''&nbsp;'') @ ''</p>''))"

definition paragraphsToHtml :: "xml list \<Rightarrow> string" where
  "paragraphsToHtml paragraphs = concat (map paragraphHtml paragraphs)"

text \<open>\<open>html.replace(/&nbsp;/g, '')\<close>.\<close>

function removeNbsp :: "string \<Rightarrow> string" where
  "removeNbsp [] = []"
| "removeNbsp (c # cs) =
     (if take 6 (c # cs) = ''&nbsp;'' then removeNbsp (drop 5 cs) else c # removeNbsp cs)"
  by pat_completeness auto
termination
  by (relation "measure length") auto

declare removeNbsp.simps [simp del]

definition notesRunsText :: "xml \<Rightarrow> string" where
  "notesRunsText para =
     concat (map tText (concat (map (\<lambda>r. arrayOf (propOf r ''a:t'')) (arrayOf (propOf para ''a:r'')))))"

definition notesShapeLines :: "xml \<Rightarrow> string list" where
  "notesShapeLines sp =
     (if phIdx sp \<noteq> Some (XStr ''1'') then []
      else if \<not> truthy (txBodyOf sp) then []
      else filter (\<lambda>t. trim t \<noteq> []) (map notesRunsText (shapeParagraphs sp)))"

definition extractNotesText :: "xml option \<Rightarrow> string" where
  "extractNotesText notesDoc =
     (let spTree = get notesDoc [''p:notes'', ''p:cSld'', ''p:spTree'']
      in if \<not> truthy spTree then []
         else join [nl] (concat (map notesShapeLines (arrayOf (oprop spTree ''p:sp'')))))"

definition extractSlideBackground :: "xml option \<Rightarrow> string" where
  "extractSlideBackground slideDoc =
     (let bgPr = get slideDoc [''p:sld'', ''p:cSld'', ''p:bg'', ''p:bgPr'']
      in if \<not> truthy bgPr then []
         else
           (let val = oprop (oprop (get bgPr [''a:solidFill'', ''a:srgbClr'']) ''$'') ''val''
            in if truthy val then ''#'' @ toStr (the val) else []))"

text \<open>
  The two loops of \<^verbatim>\<open>parseSlide\<close>, by what one iteration pushes onto \<open>shapes\<close>: nothing
  after a \<open>continue\<close>, one shape otherwise. \<open>rels[rId]\<close> and \<open>mediaCache[zipPath]\<close> are
  reads of object literals, inherited properties included.
\<close>

definition textShape :: "real \<Rightarrow> real \<Rightarrow> xml \<Rightarrow> HtmlShape list" where
  "textShape slideW slideH sp =
     (case getTransform sp slideW slideH of
        None \<Rightarrow> []
      | Some xfrm \<Rightarrow>
          (let txBody = txBodyOf sp
           in if \<not> truthy txBody then []
              else
                (let html = paragraphsToHtml (arrayOf (oprop txBody ''a:p''))
                 in if trim (removeNbsp html) = [] then []
                    else [xfrm\<lparr>inner := ''<div class='' @ [dq] @ ''tb'' @ [dq] @ ''>'' @ html @ ''</div>''\<rparr>])))"

definition picShape ::
  "(string \<rightharpoonup> string) \<Rightarrow> (string \<rightharpoonup> string) \<Rightarrow> real \<Rightarrow> real \<Rightarrow> xml \<Rightarrow> HtmlShape list" where
  "picShape rels mediaCache slideW slideH pic =
     (case getTransform pic slideW slideH of
        None \<Rightarrow> []
      | Some xfrm \<Rightarrow>
          (let rId = oprop (oprop (get (Some pic) [''p:blipFill'', ''a:blip'']) ''$'') ''r:embed''
           in if \<not> truthy rId then []
              else
                (let zipPath = getProp rels (toStr (the rId));
                     dataUri = (if truthyVal zipPath then getProp mediaCache (textOf zipPath)
                                else JUndefined)
                 in if \<not> truthyVal dataUri then []
                    else [xfrm\<lparr>inner := ''<img src='' @ [dq] @ textOf dataUri @ [dq] @ '' style='' @ [dq]
                            @ ''width:100%;height:100%;object-fit:contain;'' @ [dq]
                            @ '' alt='' @ [dq, dq] @ ''>''\<rparr>])))"

definition slideTextNodes :: "xml option \<Rightarrow> xml list" where
  "slideTextNodes slideDoc =
     (let spTree = get slideDoc [''p:sld'', ''p:cSld'', ''p:spTree'']
      in if truthy spTree then arrayOf (oprop spTree ''p:sp'') else [])"

definition slidePicNodes :: "xml option \<Rightarrow> xml list" where
  "slidePicNodes slideDoc =
     (let spTree = get slideDoc [''p:sld'', ''p:cSld'', ''p:spTree'']
      in if truthy spTree then arrayOf (oprop spTree ''p:pic'') else [])"

definition parseSlide ::
  "xml option \<Rightarrow> (string \<rightharpoonup> string) \<Rightarrow> (string \<rightharpoonup> string) \<Rightarrow> real \<Rightarrow> real \<Rightarrow> HtmlSlide" where
  "parseSlide slideDoc rels mediaCache slideW slideH =
     \<lparr>background = extractSlideBackground slideDoc,
      shapes = concat (map (textShape slideW slideH) (slideTextNodes slideDoc))
             @ concat (map (picShape rels mediaCache slideW slideH) (slidePicNodes slideDoc)),
      speakerNotes = []\<rparr>"

text \<open>The slide size of \<^verbatim>\<open>convertPptxToHtml\<close>, read from \<open>ppt/presentation.xml\<close>.\<close>

definition slideSize :: "zip \<Rightarrow> error + (int \<times> int)" where
  "slideSize z =
     (case map_of z ''ppt/presentation.xml'' of
        None \<Rightarrow> Inr (9144000, 6858000)
      | Some entry \<Rightarrow>
          (case asXml entry of
             Inl e \<Rightarrow> Inl e
           | Inr presDoc \<Rightarrow>
               (let attrs = oprop (get presDoc [''p:presentation'', ''p:sldSz'']) ''$''
                in if \<not> truthy attrs then Inr (9144000, 6858000)
                   else Inr (if intOr0 (oprop attrs ''cx'') = 0 then 9144000 else intOr0 (oprop attrs ''cx''),
                             if intOr0 (oprop attrs ''cy'') = 0 then 6858000 else intOr0 (oprop attrs ''cy'')))))"

text \<open>The loop that fills \<open>mediaCache\<close>, over the entries in the order of \<open>Object.keys\<close>.\<close>

fun mediaLoop :: "zip \<Rightarrow> (string \<rightharpoonup> string) \<Rightarrow> error + (string \<rightharpoonup> string)" where
  "mediaLoop [] cache = Inr cache"
| "mediaLoop ((zipPath, zipFile) # rest) cache =
     (if take 10 zipPath \<noteq> ''ppt/media/'' then mediaLoop rest cache
      else if isDir zipFile then mediaLoop rest cache
      else if \<not> truthyVal (getMimeType (last (split CHR ''.'' zipPath))) then mediaLoop rest cache
      else (case asBase64 zipFile of
              Inl e \<Rightarrow> Inl e
            | Inr b64 \<Rightarrow>
                mediaLoop rest
                  (setProp cache zipPath
                     (''data:'' @ textOf (getMimeType (last (split CHR ''.'' zipPath)))
                        @ '';base64,'' @ b64))))"

text \<open>
  The relationship map of one iteration of the loop over the slides: \<open>slideKey\<close> is
  \<open>slideKeys[i]\<close> and \<open>n\<close> is \<open>slideNum = i + 1\<close>.
\<close>

definition relKey :: "nat \<Rightarrow> string" where
  "relKey n = ''ppt/slides/_rels/slide'' @ showNat n @ ''.xml.rels''"

text \<open>\<open>v?.[0]\<close> on a value of any kind.\<close>

fun index0 :: "xml option \<Rightarrow> xml option" where
  "index0 None = None"
| "index0 (Some (XArr xs)) = first xs"
| "index0 (Some (XObj kvs)) = map_of kvs ''0''"
| "index0 (Some (XStr s)) = (case s of [] \<Rightarrow> None | c # cs \<Rightarrow> Some (XStr [c]))"

definition addRel :: "string \<Rightarrow> (string \<rightharpoonup> string) \<Rightarrow> xml \<Rightarrow> (string \<rightharpoonup> string)" where
  "addRel slideKey rels rel =
     (let relId = oprop (propOf rel ''$'') ''Id'';
          target = oprop (propOf rel ''$'') ''Target''
      in if truthy relId \<and> truthy target
         then setProp rels (toStr (the relId)) (resolveZipPath slideKey (toStr (the target)))
         else rels)"

definition loadRels :: "zip \<Rightarrow> string \<Rightarrow> nat \<Rightarrow> error + (string \<rightharpoonup> string)" where
  "loadRels z slideKey n =
     (case map_of z (relKey n) of
        None \<Rightarrow> Inr Map.empty
      | Some entry \<Rightarrow>
          (case asXml entry of
             Inl e \<Rightarrow> Inl e
           | Inr relsDoc \<Rightarrow>
               (let relsRoot = index0 (oprop relsDoc ''Relationships'')
                in Inr (foldl (addRel slideKey) Map.empty
                          (arrayOf (oprop relsRoot ''Relationship''))))))"

definition htmlSlide ::
  "zip \<Rightarrow> (string \<rightharpoonup> string) \<Rightarrow> int \<Rightarrow> int \<Rightarrow> nat \<Rightarrow> string \<Rightarrow> error + HtmlSlide" where
  "htmlSlide z mediaCache slideW slideH n slideKey =
     (case loadRels z slideKey n of
        Inl e \<Rightarrow> Inl e
      | Inr rels \<Rightarrow>
     (case map_of z slideKey of
        None \<Rightarrow> Inl ArchiveError
      | Some entry \<Rightarrow>
     (case asXml entry of
        Inl e \<Rightarrow> Inl e
      | Inr slideDoc \<Rightarrow>
          (let slide = parseSlide slideDoc rels mediaCache (of_int slideW) (of_int slideH)
           in (case map_of z (notesKey n) of
                 None \<Rightarrow> Inr slide
               | Some ne \<Rightarrow>
                   (case asXml ne of
                      Inl e \<Rightarrow> Inl e
                    | Inr notesDoc \<Rightarrow> Inr (slide\<lparr>speakerNotes := extractNotesText notesDoc\<rparr>)))))))"

fun slidesFrom ::
  "zip \<Rightarrow> (string \<rightharpoonup> string) \<Rightarrow> int \<Rightarrow> int \<Rightarrow> nat \<Rightarrow> string list \<Rightarrow> error + HtmlSlide list" where
  "slidesFrom z mediaCache slideW slideH i [] = Inr []"
| "slidesFrom z mediaCache slideW slideH i (slideKey # keys) =
     (case htmlSlide z mediaCache slideW slideH (i + 1) slideKey of
        Inl e \<Rightarrow> Inl e
      | Inr slide \<Rightarrow>
          (case slidesFrom z mediaCache slideW slideH (i + 1) keys of
             Inl e \<Rightarrow> Inl e
           | Inr slides \<Rightarrow> Inr (slide # slides)))"

text \<open>
  \<^verbatim>\<open>convertPptxToHtml\<close> on the opened archive. The template of the viewer,
  \<^verbatim>\<open>buildPresentationHtml\<close>, is the parameter \<open>render\<close>: it formats doubles and
  cannot throw.
\<close>

definition convertPptxToHtml ::
  "(string \<Rightarrow> HtmlSlide list \<Rightarrow> int \<Rightarrow> int \<Rightarrow> string) \<Rightarrow> zip \<Rightarrow> string \<Rightarrow> error + string" where
  "convertPptxToHtml render z ttl =
     (case slideSize z of
        Inl e \<Rightarrow> Inl e
      | Inr (slideW, slideH) \<Rightarrow>
     (case mediaLoop z Map.empty of
        Inl e \<Rightarrow> Inl e
      | Inr mediaCache \<Rightarrow>
     (case slidesFrom z mediaCache slideW slideH 0 (slideKeys z) of
        Inl e \<Rightarrow> Inl e
      | Inr slides \<Rightarrow> Inr (render ttl slides slideW slideH))))"

section \<open>The file system\<close>

text \<open>
  The tree of files and directories that the converter reads and writes. A directory
  lists its entries by name, each name once, in the order \<open>readdirSync\<close> returns them.
  A path is the list of its segments from the root; \<open>INPUT_DIR\<close> and \<open>OUTPUT_DIR\<close> are
  such paths (\<open>path.resolve\<close> makes them absolute). Links, permissions and devices are
  not modelled.
\<close>

datatype fsnode = File string | Dir "(string \<times> fsnode) list"

type_synonym path = "string list"

fun lookup :: "fsnode \<Rightarrow> path \<Rightarrow> fsnode option" where
  "lookup n [] = Some n"
| "lookup n (s # p) =
     (case n of
        File c \<Rightarrow> None
      | Dir es \<Rightarrow> (case map_of es s of None \<Rightarrow> None | Some child \<Rightarrow> lookup child p))"

definition existsSync :: "fsnode \<Rightarrow> path \<Rightarrow> bool" where
  "existsSync fs p = (lookup fs p \<noteq> None)"

text \<open>\<open>fs.mkdirSync(dir, { recursive: true })\<close>.\<close>

fun mkdirp :: "path \<Rightarrow> fsnode \<Rightarrow> error + fsnode" where
  "mkdirp [] n = (case n of File c \<Rightarrow> Inl EEXIST | Dir es \<Rightarrow> Inr n)"
| "mkdirp (s # p) n =
     (case n of
        File c \<Rightarrow> Inl ENOTDIR
      | Dir es \<Rightarrow>
          (case map_of es s of
             None \<Rightarrow>
               (case mkdirp p (Dir []) of
                  Inl e \<Rightarrow> Inl e
                | Inr child \<Rightarrow> Inr (Dir (es @ [(s, child)])))
           | Some child \<Rightarrow>
               (case mkdirp p child of
                  Inl e \<Rightarrow> Inl e
                | Inr child' \<Rightarrow> Inr (Dir (AList.update s child' es)))))"

text \<open>\<open>fs.writeFileSync(file, data)\<close>: the file is created or replaced, in a directory that exists.\<close>

fun writeFileSync :: "path \<Rightarrow> string \<Rightarrow> fsnode \<Rightarrow> error + fsnode" where
  "writeFileSync [] dat n = (case n of File c \<Rightarrow> Inr (File dat) | Dir es \<Rightarrow> Inl EISDIR)"
| "writeFileSync (s # p) dat n =
     (case n of
        File c \<Rightarrow> Inl ENOTDIR
      | Dir es \<Rightarrow>
          (case map_of es s of
             None \<Rightarrow> if p = [] then Inr (Dir (es @ [(s, File dat)])) else Inl ENOENT
           | Some child \<Rightarrow>
               (case writeFileSync p dat child of
                  Inl e \<Rightarrow> Inl e
                | Inr child' \<Rightarrow> Inr (Dir (AList.update s child' es)))))"

text \<open>\<open>fs.rmSync(dir, { recursive: true })\<close>; the root itself cannot be removed.\<close>

fun rmSync :: "path \<Rightarrow> fsnode \<Rightarrow> error + fsnode" where
  "rmSync [] n = Inl EBUSY"
| "rmSync (s # p) n =
     (case n of
        File c \<Rightarrow> Inl ENOTDIR
      | Dir es \<Rightarrow>
          (case map_of es s of
             None \<Rightarrow> Inl ENOENT
           | Some child \<Rightarrow>
               if p = [] then Inr (Dir (AList.delete s es))
               else (case rmSync p child of
                       Inl e \<Rightarrow> Inl e
                     | Inr child' \<Rightarrow> Inr (Dir (AList.update s child' es)))))"

definition readFileSync :: "fsnode \<Rightarrow> path \<Rightarrow> error + string" where
  "readFileSync fs p =
     (case lookup fs p of
        None \<Rightarrow> Inl ENOENT
      | Some (Dir es) \<Rightarrow> Inl EISDIR
      | Some (File c) \<Rightarrow> Inr c)"

definition copyFileSync :: "path \<Rightarrow> path \<Rightarrow> fsnode \<Rightarrow> error + fsnode" where
  "copyFileSync src dest fs =
     (case readFileSync fs src of Inl e \<Rightarrow> Inl e | Inr c \<Rightarrow> writeFileSync dest c fs)"

definition isDirectory :: "fsnode \<Rightarrow> bool" where
  "isDirectory n = (case n of Dir es \<Rightarrow> True | File c \<Rightarrow> False)"

text \<open>\<^verbatim>\<open>walk(dir)\<close>, on the node found at \<open>dir\<close>.\<close>

fun walkNode :: "path \<Rightarrow> fsnode \<Rightarrow> path list" where
  "walkNode dir (File c) = []"
| "walkNode dir (Dir es) =
     concat (map (\<lambda>e. if isDirectory (snd e) then walkNode (dir @ [fst e]) (snd e)
                       else [dir @ [fst e]]) es)"

definition walk :: "fsnode \<Rightarrow> path \<Rightarrow> error + path list" where
  "walk fs dir =
     (case lookup fs dir of
        None \<Rightarrow> Inl ENOENT
      | Some (File c) \<Rightarrow> Inl ENOTDIR
      | Some (Dir es) \<Rightarrow> Inr (walkNode dir (Dir es)))"

section \<open>Paths\<close>

text \<open>\<open>path.extname\<close> of a file name: from its last dot on, unless that dot is its first
  character or it has none; the name \<open>..\<close> has no extension.\<close>

definition extname :: "string \<Rightarrow> string" where
  "extname name =
     (let r = takeWhile (\<lambda>c. c \<noteq> CHR ''.'') (rev name)
      in if length name \<le> length r + 1 \<or> name = ''..'' then [] else CHR ''.'' # rev r)"

text \<open>\<open>path.basename(file, ext)\<close> of a path whose last segment is \<open>name\<close>: the suffix
  \<open>ext\<close> is removed when the name ends with it and is longer.\<close>

definition basenameExt :: "string \<Rightarrow> string \<Rightarrow> string" where
  "basenameExt name ext =
     (if ext \<noteq> [] \<and> length ext < length name \<and> drop (length name - length ext) name = ext
      then take (length name - length ext) name
      else name)"

definition startsWith :: "string \<Rightarrow> string \<Rightarrow> bool" where
  "startsWith s pre = (take (length pre) s = pre)"

definition endsWith :: "string \<Rightarrow> string \<Rightarrow> bool" where
  "endsWith s suf = (length suf \<le> length s \<and> drop (length s - length suf) s = suf)"

text \<open>\<open>s.replace(/suf$/i, new)\<close> for a literal suffix \<open>suf\<close> in lower case.\<close>

definition replaceSuffixCI :: "string \<Rightarrow> string \<Rightarrow> string \<Rightarrow> string" where
  "replaceSuffixCI suf new s =
     (if length suf \<le> length s \<and> toLowerCase (drop (length s - length suf) s) = suf
      then take (length s - length suf) s @ new
      else s)"

text \<open>
  \<open>path.join(base, rel)\<close> for an absolute \<open>base\<close>: the segments are normalised, empty
  segments and \<open>.\<close> dropped, \<open>..\<close> removing the segment before it.
\<close>

definition normalizeStep :: "path \<Rightarrow> string \<Rightarrow> path" where
  "normalizeStep acc s =
     (if s = [] \<or> s = ''.'' then acc else if s = ''..'' then butlast acc else acc @ [s])"

definition pathJoin :: "path \<Rightarrow> string \<Rightarrow> path" where
  "pathJoin base rel = foldl normalizeStep base (split CHR ''/'' rel)"

text \<open>\<open>path.relative(INPUT_DIR, filePath)\<close> for a file that \<^verbatim>\<open>walk(INPUT_DIR)\<close> found.\<close>

definition relativeTo :: "path \<Rightarrow> path \<Rightarrow> string" where
  "relativeTo inp filePath = join ''/'' (drop (length inp) filePath)"

section \<open>The sidebar\<close>

datatype SidebarItem =
  SidebarItem (itemText: string) (link: "string option") (collapsed: "bool option")
    (items: "SidebarItem list option")

text \<open>\<open>Array.prototype.sort\<close> with a comparator, as a stable insertion sort: \<open>le a b\<close> says
  that the comparator does not put \<open>a\<close> after \<open>b\<close>.\<close>

fun insertBy :: "('a \<Rightarrow> 'a \<Rightarrow> bool) \<Rightarrow> 'a \<Rightarrow> 'a list \<Rightarrow> 'a list" where
  "insertBy le x [] = [x]"
| "insertBy le x (y # ys) = (if le x y then x # y # ys else y # insertBy le x ys)"

definition sortBy :: "('a \<Rightarrow> 'a \<Rightarrow> bool) \<Rightarrow> 'a list \<Rightarrow> 'a list" where
  "sortBy le xs = foldr (insertBy le) xs []"

text \<open>The comparator of the sidebar builders: directories first, then by
  \<open>localeCompare\<close>, which is a parameter (it depends on the locale).\<close>

definition entryLe :: "(string \<Rightarrow> string \<Rightarrow> int) \<Rightarrow> string \<times> fsnode \<Rightarrow> string \<times> fsnode \<Rightarrow> bool" where
  "entryLe localeCompare a b =
     (if isDirectory (snd a) \<noteq> isDirectory (snd b) then isDirectory (snd a)
      else localeCompare (fst a) (fst b) \<le> 0)"

text \<open>The download glyph U+1F4E5 that precedes a spreadsheet's name, as its UTF-8 bytes.\<close>

definition downloadGlyph :: string where
  "downloadGlyph = [CHR 0xF0, CHR 0x9F, CHR 0x93, CHR 0xA5]"

text \<open>
  The three sidebar builders differ in the names they skip and in whether a spreadsheet
  gets an item: \<^verbatim>\<open>buildItems\<close> of the Markdown variant, \<^verbatim>\<open>buildItems\<close> of the
  HTML-viewer variant and \<^verbatim>\<open>buildSidebarItems\<close> of the site configuration are the
  instances below of one function, which takes the skipped names and that flag.
\<close>

function buildItemsOf ::
  "string list \<Rightarrow> bool \<Rightarrow> (string \<Rightarrow> string \<Rightarrow> int) \<Rightarrow> fsnode \<Rightarrow> string \<Rightarrow> SidebarItem list" where
  "buildItemsOf skipped xlsx localeCompare (File c) urlBase = []"
| "buildItemsOf skipped xlsx localeCompare (Dir es) urlBase =
     concat (map
       (\<lambda>entry.
          if isDirectory (snd entry)
          then [SidebarItem (fst entry) None (Some True)
                  (Some (buildItemsOf skipped xlsx localeCompare (snd entry)
                           (urlBase @ fst entry @ ''/'')))]
          else if endsWith (fst entry) ''.md''
          then [SidebarItem (take (length (fst entry) - 3) (fst entry))
                  (Some (urlBase @ take (length (fst entry) - 3) (fst entry))) None None]
          else if xlsx \<and> endsWith (fst entry) ''.xlsx''
          then [SidebarItem (downloadGlyph @ '' '' @ take (length (fst entry) - 5) (fst entry))
                  (Some (urlBase @ fst entry)) None None]
          else [])
       (sortBy (entryLe localeCompare) (filter (\<lambda>e. fst e \<notin> set skipped) es)))"
  by pat_completeness auto
termination
proof (relation "measure (\<lambda>(skipped, xlsx, lc, n, u). size n)")
  show "wf (measure (\<lambda>(skipped, xlsx, lc, n, u). size n))"
    by simp
next
  fix skipped :: "string list" and xlsx :: bool and localeCompare :: "string \<Rightarrow> string \<Rightarrow> int"
    and es :: "(string \<times> fsnode) list" and urlBase :: string and entry :: "string \<times> fsnode"
  assume mem: "entry \<in> set (sortBy (entryLe localeCompare) (filter (\<lambda>e. fst e \<notin> set skipped) es))"
  have ins: "set (insertBy le x xs) = insert x (set xs)"
    for le :: "string \<times> fsnode \<Rightarrow> string \<times> fsnode \<Rightarrow> bool" and x xs
    by (induction xs) auto
  have "set (sortBy le xs) = set xs"
    for le :: "string \<times> fsnode \<Rightarrow> string \<times> fsnode \<Rightarrow> bool" and xs
    by (induction xs) (simp_all add: sortBy_def ins)
  with mem have "entry \<in> set es"
    by simp
  then have "size (snd entry) < size (Dir es)"
    by (induction es) auto
  then show "((skipped, xlsx, localeCompare, snd entry, urlBase @ fst entry @ ''/''),
              (skipped, xlsx, localeCompare, Dir es, urlBase)) \<in> measure (\<lambda>(skipped, xlsx, lc, n, u). size n)"
    by simp
qed

definition buildItems1 :: "(string \<Rightarrow> string \<Rightarrow> int) \<Rightarrow> fsnode \<Rightarrow> string \<Rightarrow> SidebarItem list" where
  "buildItems1 = buildItemsOf [''sidebar.ts'', ''index.md''] True"

definition buildItems3 :: "(string \<Rightarrow> string \<Rightarrow> int) \<Rightarrow> fsnode \<Rightarrow> string \<Rightarrow> SidebarItem list" where
  "buildItems3 = buildItemsOf [''sidebar.ts'', ''index.md'', ''public''] True"

definition buildSidebarItems :: "(string \<Rightarrow> string \<Rightarrow> int) \<Rightarrow> fsnode \<Rightarrow> string \<Rightarrow> SidebarItem list" where
  "buildSidebarItems = buildItemsOf [''sidebar.ts'', ''index.md''] False"

section \<open>The orchestrator\<close>

text \<open>
  What the converter takes from outside: the Word converter with the Markdown formatter
  behind it (\<^verbatim>\<open>convertDocx\<close>, on the bytes of the file), the archive reader, the template
  of the viewer, \<open>encodeURIComponent\<close>, \<open>localeCompare\<close>, and the template of the sidebar
  file around \<open>JSON.stringify\<close>.
\<close>

record env =
  convertDocx :: "string \<Rightarrow> error + string"
  loadAsync :: "string \<Rightarrow> error + zip"
  buildPresentationHtml :: "string \<Rightarrow> HtmlSlide list \<Rightarrow> int \<Rightarrow> int \<Rightarrow> string"
  encodeURIComponent :: "string \<Rightarrow> string"
  localeCompare :: "string \<Rightarrow> string \<Rightarrow> int"
  sidebarSource :: "SidebarItem list \<Rightarrow> string"

text \<open>
  How a run ends: \<open>process.exit(1)\<close> on a missing input directory, an error that no
  \<open>try\<close> catches (the process exits with code 1 as well), the early return when no
  file was found, or the summary with the counts of converted and failed files.
  Console output is not modelled.
\<close>

datatype outcome = Exit1 | Uncaught error | NothingFound | Done nat nat

text \<open>A loop whose body may throw outside every \<open>try\<close>: the run stops in the state reached.\<close>

fun runLoop :: "('a \<Rightarrow> 's \<Rightarrow> error option \<times> 's) \<Rightarrow> 'a list \<Rightarrow> 's \<Rightarrow> error option \<times> 's" where
  "runLoop step [] st = (None, st)"
| "runLoop step (x # xs) st =
     (case step x st of
        (Some e, st') \<Rightarrow> (Some e, st')
      | (None, st') \<Rightarrow> runLoop step xs st')"

definition frontmatter :: "string \<Rightarrow> string \<Rightarrow> string" where
  "frontmatter ttl baseName =
     join [nl]
       [''---'',
        ''title: '' @ [dq] @ replaceAll dq [CHR 0x5C, dq] ttl @ [dq],
        ''source: '' @ [dq] @ baseName @ [dq],
        ''---'',
        []]"

text \<open>The files that a run of the Markdown or the HTML-viewer variant handles.\<close>

definition wanted :: "path \<Rightarrow> bool" where
  "wanted f =
     (\<not> startsWith (last f) ''~$''
      \<and> toLowerCase (extname (last f)) \<in> set [''.docx'', ''.pptx'', ''.xlsx''])"

definition isXlsx :: "path \<Rightarrow> bool" where
  "isXlsx f = (toLowerCase (extname (last f)) = ''.xlsx'')"

text \<open>The body of the loop that copies the spreadsheets.\<close>

definition copyOne :: "path \<Rightarrow> path \<Rightarrow> path \<Rightarrow> fsnode \<Rightarrow> error option \<times> fsnode" where
  "copyOne inp out filePath fs =
     (let outPath = pathJoin out (relativeTo inp filePath)
      in (case mkdirp (butlast outPath) fs of
            Inl e \<Rightarrow> (Some e, fs)
          | Inr fs1 \<Rightarrow>
              (case copyFileSync filePath outPath fs1 of
                 Inl e \<Rightarrow> (Some e, fs1)
               | Inr fs2 \<Rightarrow> (None, fs2))))"

subsection \<open>The Markdown variant\<close>

text \<open>\<^verbatim>\<open>convertPptx(filePath)\<close> and \<^verbatim>\<open>convertDocx(filePath)\<close> on the file system.\<close>

definition convertBody1 :: "env \<Rightarrow> fsnode \<Rightarrow> path \<Rightarrow> error + string" where
  "convertBody1 E fs filePath =
     (case readFileSync fs filePath of
        Inl e \<Rightarrow> Inl e
      | Inr raw \<Rightarrow>
          if toLowerCase (extname (last filePath)) = ''.docx'' then convertDocx E raw
          else (case loadAsync E raw of Inl e \<Rightarrow> Inl e | Inr z \<Rightarrow> convertPptx z))"

definition outPath1 :: "path \<Rightarrow> path \<Rightarrow> path \<Rightarrow> path" where
  "outPath1 inp out filePath =
     (let relative = relativeTo inp filePath;
          outRel = (if replaceSuffixCI ''.docx'' ''.md'' relative \<noteq> relative
                    then replaceSuffixCI ''.docx'' ''.md'' relative
                    else replaceSuffixCI ''.pptx'' ''.md'' relative)
      in pathJoin out outRel)"

text \<open>
  The \<open>try\<close> block of one file: the error that the \<open>catch\<close> receives, if one is
  thrown, and the file system as the block leaves it.
\<close>

definition tryConvert1 :: "env \<Rightarrow> path \<Rightarrow> path \<Rightarrow> path \<Rightarrow> fsnode \<Rightarrow> error option \<times> fsnode" where
  "tryConvert1 E inp out filePath fs =
     (let ext = toLowerCase (extname (last filePath));
          baseName = last filePath;
          ttl = basenameExt baseName ext
      in (case convertBody1 E fs filePath of
            Inl e \<Rightarrow> (Some e, fs)
          | Inr body \<Rightarrow>
              (case writeFileSync (outPath1 inp out filePath)
                      (frontmatter ttl baseName @ body @ [nl]) fs of
                 Inl e \<Rightarrow> (Some e, fs)
               | Inr fs1 \<Rightarrow> (None, fs1))))"

definition convertOne1 ::
  "env \<Rightarrow> path \<Rightarrow> path \<Rightarrow> path \<Rightarrow> fsnode \<times> nat \<times> nat \<Rightarrow> error option \<times> (fsnode \<times> nat \<times> nat)" where
  "convertOne1 E inp out filePath st =
     (case st of (fs, ok, fail) \<Rightarrow>
        (case mkdirp (butlast (outPath1 inp out filePath)) fs of
           Inl e \<Rightarrow> (Some e, st)
         | Inr fs1 \<Rightarrow>
             (case tryConvert1 E inp out filePath fs1 of
                (Some e, fs2) \<Rightarrow> (None, (fs2, ok, fail + 1))
              | (None, fs2) \<Rightarrow> (None, (fs2, ok + 1, fail)))))"

definition buildSidebar1 :: "env \<Rightarrow> fsnode \<Rightarrow> path \<Rightarrow> error + string" where
  "buildSidebar1 E fs outDir =
     (case lookup fs outDir of
        None \<Rightarrow> Inl ENOENT
      | Some (File c) \<Rightarrow> Inl ENOTDIR
      | Some (Dir es) \<Rightarrow> Inr (sidebarSource E (buildItems1 (localeCompare E) (Dir es) ''/'')))"

definition main1 :: "env \<Rightarrow> path \<Rightarrow> path \<Rightarrow> fsnode \<Rightarrow> outcome \<times> fsnode" where
  "main1 E inp out fs =
     (if \<not> existsSync fs inp then (Exit1, fs)
      else
     (case mkdirp out fs of
        Inl e \<Rightarrow> (Uncaught e, fs)
      | Inr fs1 \<Rightarrow>
     (case walk fs1 inp of
        Inl e \<Rightarrow> (Uncaught e, fs1)
      | Inr found \<Rightarrow>
          (let allFiles = filter wanted found
           in if allFiles = [] then (NothingFound, fs1)
              else
                (let convertFiles = filter (\<lambda>f. \<not> isXlsx f) allFiles;
                     xlsxFiles = filter isXlsx allFiles
                 in (case runLoop (copyOne inp out) xlsxFiles fs1 of
                       (Some e, fs2) \<Rightarrow> (Uncaught e, fs2)
                     | (None, fs2) \<Rightarrow>
                    (case runLoop (convertOne1 E inp out) convertFiles (fs2, 0, 0) of
                       (Some e, (fs3, ok, fail)) \<Rightarrow> (Uncaught e, fs3)
                     | (None, (fs3, ok, fail)) \<Rightarrow>
                    (case buildSidebar1 E fs3 out of
                       Inl e \<Rightarrow> (Uncaught e, fs3)
                     | Inr src \<Rightarrow>
                    (case writeFileSync (out @ [''sidebar.ts'']) src fs3 of
                       Inl e \<Rightarrow> (Uncaught e, fs3)
                     | Inr fs4 \<Rightarrow> (Done ok fail, fs4))))))))))"

subsection \<open>The docx-only variant\<close>

text \<open>
  The docx-only variant is the second version of \<^verbatim>\<open>convert.ts\<close>. The steps of
  \<^verbatim>\<open>slugify\<close>, one per \<open>replace\<close>: a run of white space becomes one dash, a character
  that is not URL-safe becomes a dash, a run of dashes becomes one dash, and the dashes
  at both ends are removed.
\<close>

function spacesToDash :: "string \<Rightarrow> string" where
  "spacesToDash [] = []"
| "spacesToDash (c # cs) =
     (if isWs c then CHR ''-'' # spacesToDash (dropWhile isWs cs) else c # spacesToDash cs)"
  by pat_completeness auto
termination
  by (relation "measure length") (auto simp: length_dropWhile_le less_Suc_eq_le)

definition isUrlSafe :: "char \<Rightarrow> bool" where
  "isUrlSafe c = (c \<in> set ''abcdefghijklmnopqrstuvwxyz0123456789-_.'')"

function collapseDashes :: "string \<Rightarrow> string" where
  "collapseDashes [] = []"
| "collapseDashes (c # cs) =
     (if c = CHR ''-'' then CHR ''-'' # collapseDashes (dropWhile (\<lambda>x. x = CHR ''-'') cs)
      else c # collapseDashes cs)"
  by pat_completeness auto
termination
  by (relation "measure length") (auto simp: length_dropWhile_le less_Suc_eq_le)

definition slugify :: "string \<Rightarrow> string" where
  "slugify name =
     (let a = toLowerCase name;
          b = spacesToDash a;
          c = map (\<lambda>x. if isUrlSafe x then x else CHR ''-'') b;
          d = collapseDashes c
      in rev (dropWhile (\<lambda>x. x = CHR ''-'') (rev (dropWhile (\<lambda>x. x = CHR ''-'') d))))"

definition slugifyRelativePath :: "string \<Rightarrow> string" where
  "slugifyRelativePath relPath =
     (let segments = split CHR ''/'' relPath
      in join ''/''
           (map slugify (butlast segments)
            @ [slugify (basenameExt (last segments) (extname (last segments)))
               @ extname (last segments)]))"

definition isDocx :: "path \<Rightarrow> bool" where
  "isDocx f = (\<not> startsWith (last f) ''~$'' \<and> toLowerCase (extname (last f)) = ''.docx'')"

definition outPath2 :: "path \<Rightarrow> path \<Rightarrow> path \<Rightarrow> path" where
  "outPath2 inp out filePath =
     pathJoin out (slugifyRelativePath (replaceSuffixCI ''.docx'' ''.md'' (relativeTo inp filePath)))"

definition convertBody2 :: "env \<Rightarrow> fsnode \<Rightarrow> path \<Rightarrow> error + string" where
  "convertBody2 E fs filePath =
     (case readFileSync fs filePath of Inl e \<Rightarrow> Inl e | Inr raw \<Rightarrow> convertDocx E raw)"

definition tryConvert2 :: "env \<Rightarrow> path \<Rightarrow> path \<Rightarrow> path \<Rightarrow> fsnode \<Rightarrow> error option \<times> fsnode" where
  "tryConvert2 E inp out filePath fs =
     (let baseName = last filePath;
          ttl = basenameExt baseName (extname baseName)
      in (case convertBody2 E fs filePath of
            Inl e \<Rightarrow> (Some e, fs)
          | Inr body \<Rightarrow>
              (case writeFileSync (outPath2 inp out filePath)
                      (frontmatter ttl baseName @ body @ [nl]) fs of
                 Inl e \<Rightarrow> (Some e, fs)
               | Inr fs1 \<Rightarrow> (None, fs1))))"

definition convertOne2 ::
  "env \<Rightarrow> path \<Rightarrow> path \<Rightarrow> path \<Rightarrow> fsnode \<times> nat \<times> nat \<Rightarrow> error option \<times> (fsnode \<times> nat \<times> nat)" where
  "convertOne2 E inp out filePath st =
     (case st of (fs, ok, fail) \<Rightarrow>
        (case mkdirp (butlast (outPath2 inp out filePath)) fs of
           Inl e \<Rightarrow> (Some e, st)
         | Inr fs1 \<Rightarrow>
             (case tryConvert2 E inp out filePath fs1 of
                (Some e, fs2) \<Rightarrow> (None, (fs2, ok, fail + 1))
              | (None, fs2) \<Rightarrow> (None, (fs2, ok + 1, fail)))))"

text \<open>
  The first statements after the check of the input directory:
  \<open>if (fs.existsSync(OUTPUT_DIR)) fs.rmSync(OUTPUT_DIR, { recursive: true })\<close>, then
  \<open>mkdirp(OUTPUT_DIR)\<close>.
\<close>

definition removeOutput :: "path \<Rightarrow> fsnode \<Rightarrow> error + fsnode" where
  "removeOutput out fs = (if existsSync fs out then rmSync out fs else Inr fs)"

text \<open>What follows them: the walk, the early return and the loop over the files.\<close>

definition convertAll2 :: "env \<Rightarrow> path \<Rightarrow> path \<Rightarrow> fsnode \<Rightarrow> outcome \<times> fsnode" where
  "convertAll2 E inp out fs1 =
     (case walk fs1 inp of
        Inl e \<Rightarrow> (Uncaught e, fs1)
      | Inr found \<Rightarrow>
          (let docxFiles = filter isDocx found
           in if docxFiles = [] then (NothingFound, fs1)
              else (case runLoop (convertOne2 E inp out) docxFiles (fs1, 0, 0) of
                      (Some e, (fs2, ok, fail)) \<Rightarrow> (Uncaught e, fs2)
                    | (None, (fs2, ok, fail)) \<Rightarrow> (Done ok fail, fs2))))"

definition main2 :: "env \<Rightarrow> path \<Rightarrow> path \<Rightarrow> fsnode \<Rightarrow> outcome \<times> fsnode" where
  "main2 E inp out fs =
     (if \<not> existsSync fs inp then (Exit1, fs)
      else
     (case removeOutput out fs of
        Inl e \<Rightarrow> (Uncaught e, fs)
      | Inr fs0 \<Rightarrow>
     (case mkdirp out fs0 of
        Inl e \<Rightarrow> (Uncaught e, fs0)
      | Inr fs1 \<Rightarrow> convertAll2 E inp out fs1)))"

subsection \<open>The HTML-viewer variant\<close>

definition htmlOutPath :: "path \<Rightarrow> path \<Rightarrow> path \<Rightarrow> path" where
  "htmlOutPath inp out filePath =
     pathJoin (out @ [''public'', ''slides''])
       (replaceSuffixCI ''.pptx'' ''.html'' (replaceAll (CHR 0x5C) ''/'' (relativeTo inp filePath)))"

definition mdOutPath :: "path \<Rightarrow> path \<Rightarrow> path \<Rightarrow> path" where
  "mdOutPath inp out filePath =
     pathJoin out (replaceSuffixCI ''.pptx'' ''.md'' (relativeTo inp filePath))"

definition docxOutPath :: "path \<Rightarrow> path \<Rightarrow> path \<Rightarrow> path" where
  "docxOutPath inp out filePath =
     pathJoin out (replaceSuffixCI ''.docx'' ''.md'' (relativeTo inp filePath))"

definition mdContent :: "env \<Rightarrow> string \<Rightarrow> string \<Rightarrow> string \<Rightarrow> string" where
  "mdContent E ttl baseName htmlRelFwd =
     (let encodedUrl = ''/slides/'' @ join ''/'' (map (encodeURIComponent E) (split CHR ''/'' htmlRelFwd))
      in join [nl]
           [''---'',
            ''title: '' @ [dq] @ replaceAll dq [CHR 0x5C, dq] ttl @ [dq],
            ''source: '' @ [dq] @ baseName @ [dq],
            ''---'',
            [],
            ''<div style='' @ [dq] @ ''width:100%;height:75vh;'' @ [dq] @ ''>'',
            ''  <iframe src='' @ [dq] @ encodedUrl @ [dq] @ '' style='' @ [dq]
              @ ''width:100%;height:100%;border:none;'' @ [dq] @ '' title='' @ [dq]
              @ escapeHtml ttl @ [dq] @ ''></iframe>'',
            ''</div>'',
            []])"

text \<open>\<^verbatim>\<open>convertPptxToHtml(filePath, title)\<close> on the file system.\<close>

definition convertHtml3 :: "env \<Rightarrow> fsnode \<Rightarrow> path \<Rightarrow> string \<Rightarrow> error + string" where
  "convertHtml3 E fs filePath ttl =
     (case readFileSync fs filePath of
        Inl e \<Rightarrow> Inl e
      | Inr raw \<Rightarrow>
          (case loadAsync E raw of
             Inl e \<Rightarrow> Inl e
           | Inr z \<Rightarrow> convertPptxToHtml (buildPresentationHtml E) z ttl))"

definition tryPptx3 :: "env \<Rightarrow> path \<Rightarrow> path \<Rightarrow> path \<Rightarrow> fsnode \<Rightarrow> error option \<times> fsnode" where
  "tryPptx3 E inp out filePath fs =
     (let ext = toLowerCase (extname (last filePath));
          baseName = last filePath;
          ttl = basenameExt baseName ext;
          htmlRelFwd = replaceSuffixCI ''.pptx'' ''.html''
                         (replaceAll (CHR 0x5C) ''/'' (relativeTo inp filePath))
      in (case convertHtml3 E fs filePath ttl of
            Inl e \<Rightarrow> (Some e, fs)
          | Inr html \<Rightarrow>
              (case writeFileSync (htmlOutPath inp out filePath) html fs of
                 Inl e \<Rightarrow> (Some e, fs)
               | Inr fs1 \<Rightarrow>
                   (case writeFileSync (mdOutPath inp out filePath)
                           (mdContent E ttl baseName htmlRelFwd) fs1 of
                      Inl e \<Rightarrow> (Some e, fs1)
                    | Inr fs2 \<Rightarrow> (None, fs2)))))"

definition tryDocx3 :: "env \<Rightarrow> path \<Rightarrow> path \<Rightarrow> path \<Rightarrow> fsnode \<Rightarrow> error option \<times> fsnode" where
  "tryDocx3 E inp out filePath fs =
     (let ext = toLowerCase (extname (last filePath));
          baseName = last filePath;
          ttl = basenameExt baseName ext
      in (case convertBody2 E fs filePath of
            Inl e \<Rightarrow> (Some e, fs)
          | Inr body \<Rightarrow>
              (case writeFileSync (docxOutPath inp out filePath)
                      (frontmatter ttl baseName @ body @ [nl]) fs of
                 Inl e \<Rightarrow> (Some e, fs)
               | Inr fs1 \<Rightarrow> (None, fs1))))"

definition convertOne3 ::
  "env \<Rightarrow> path \<Rightarrow> path \<Rightarrow> path \<Rightarrow> fsnode \<times> nat \<times> nat \<Rightarrow> error option \<times> (fsnode \<times> nat \<times> nat)" where
  "convertOne3 E inp out filePath st =
     (case st of (fs, ok, fail) \<Rightarrow>
        if toLowerCase (extname (last filePath)) = ''.pptx''
        then
          (case mkdirp (butlast (htmlOutPath inp out filePath)) fs of
             Inl e \<Rightarrow> (Some e, st)
           | Inr fs1 \<Rightarrow>
          (case mkdirp (butlast (mdOutPath inp out filePath)) fs1 of
             Inl e \<Rightarrow> (Some e, (fs1, ok, fail))
           | Inr fs2 \<Rightarrow>
          (case tryPptx3 E inp out filePath fs2 of
             (Some e, fs3) \<Rightarrow> (None, (fs3, ok, fail + 1))
           | (None, fs3) \<Rightarrow> (None, (fs3, ok + 1, fail)))))
        else
          (case mkdirp (butlast (docxOutPath inp out filePath)) fs of
             Inl e \<Rightarrow> (Some e, st)
           | Inr fs1 \<Rightarrow>
               (case tryDocx3 E inp out filePath fs1 of
                  (Some e, fs2) \<Rightarrow> (None, (fs2, ok, fail + 1))
                | (None, fs2) \<Rightarrow> (None, (fs2, ok + 1, fail)))))"

definition buildSidebar3 :: "env \<Rightarrow> fsnode \<Rightarrow> path \<Rightarrow> error + string" where
  "buildSidebar3 E fs outDir =
     (case lookup fs outDir of
        None \<Rightarrow> Inl ENOENT
      | Some (File c) \<Rightarrow> Inl ENOTDIR
      | Some (Dir es) \<Rightarrow> Inr (sidebarSource E (buildItems3 (localeCompare E) (Dir es) ''/'')))"

definition main3 :: "env \<Rightarrow> path \<Rightarrow> path \<Rightarrow> fsnode \<Rightarrow> outcome \<times> fsnode" where
  "main3 E inp out fs =
     (if \<not> existsSync fs inp then (Exit1, fs)
      else
     (case mkdirp out fs of
        Inl e \<Rightarrow> (Uncaught e, fs)
      | Inr fs1 \<Rightarrow>
     (case walk fs1 inp of
        Inl e \<Rightarrow> (Uncaught e, fs1)
      | Inr found \<Rightarrow>
          (let allFiles = filter wanted found
           in if allFiles = [] then (NothingFound, fs1)
              else
                (let convertFiles = filter (\<lambda>f. \<not> isXlsx f) allFiles;
                     xlsxFiles = filter isXlsx allFiles
                 in (case runLoop (copyOne inp out) xlsxFiles fs1 of
                       (Some e, fs2) \<Rightarrow> (Uncaught e, fs2)
                     | (None, fs2) \<Rightarrow>
                    (case runLoop (convertOne3 E inp out) convertFiles (fs2, 0, 0) of
                       (Some e, (fs3, ok, fail)) \<Rightarrow> (Uncaught e, fs3)
                     | (None, (fs3, ok, fail)) \<Rightarrow>
                    (case buildSidebar3 E fs3 out of
                       Inl e \<Rightarrow> (Uncaught e, fs3)
                     | Inr src \<Rightarrow>
                    (case writeFileSync (out @ [''sidebar.ts'']) src fs3 of
                       Inl e \<Rightarrow> (Uncaught e, fs3)
                     | Inr fs4 \<Rightarrow> (Done ok fail, fs4))))))))))"

section \<open>Definitions for the statements\<close>

text \<open>The lengths of the maximal runs of blank lines in a list of lines.\<close>

fun runsFrom :: "nat \<Rightarrow> string list \<Rightarrow> nat list" where
  "runsFrom k [] = (if k = 0 then [] else [k])"
| "runsFrom k (l # ls) =
     (if l = [] then runsFrom (Suc k) ls
      else (if k = 0 then [] else [k]) @ runsFrom 0 ls)"

definition blankRuns :: "string list \<Rightarrow> nat list" where
  "blankRuns ls = runsFrom 0 ls"

text \<open>A paragraph with one run of text, as the parser returns it.\<close>

definition textParagraph :: "string \<Rightarrow> xml" where
  "textParagraph s = XObj [(''a:r'', XArr [XObj [(''a:t'', XArr [XStr s])]])]"

text \<open>
  The slide in the words of the specification. A shape bears text when it has a text
  body with at least one paragraph of non-empty text; a title shape is a text-bearing
  shape whose placeholder type is \<open>title\<close>, \<open>ctrTitle\<close> or \<open>subTitle\<close>. The title of the
  slide is the text of the first title shape; every other shape is a body shape and
  gives its block, unless the block is blank.
\<close>

definition textBearing :: "xml \<Rightarrow> bool" where
  "textBearing sp = (truthy (txBodyOf sp) \<and> shapeTexts sp \<noteq> [])"

definition titleShape :: "xml \<Rightarrow> bool" where
  "titleShape sp = (isTitle sp \<and> textBearing sp)"

definition shapeBlock :: "xml \<Rightarrow> error + string list" where
  "shapeBlock sp =
     (if \<not> textBearing sp then Inr []
      else (case paragraphsToMarkdown (shapeParagraphs sp) of
              Inl e \<Rightarrow> Inl e
            | Inr block \<Rightarrow> Inr (if trim block \<noteq> [] then [block] else [])))"

fun withoutFirst :: "('a \<Rightarrow> bool) \<Rightarrow> 'a list \<Rightarrow> 'a list" where
  "withoutFirst P [] = []"
| "withoutFirst P (x # xs) = (if P x then xs else x # withoutFirst P xs)"

definition titleOf :: "xml list \<Rightarrow> string" where
  "titleOf sps = (case find titleShape sps of None \<Rightarrow> [] | Some sp \<Rightarrow> join '' '' (shapeTexts sp))"

definition slideSpec :: "xml list \<Rightarrow> error + SlideData" where
  "slideSpec sps =
     (case forEach shapeBlock (withoutFirst titleShape sps) of
        Inl e \<Rightarrow> Inl e
      | Inr blocks \<Rightarrow> Inr \<lparr>title = titleOf sps, bodyBlocks = concat blocks\<rparr>)"

text \<open>A shape with a placeholder type and one paragraph, and a slide with given shapes,
  as the parser returns them.\<close>

definition placeholderShape :: "string \<Rightarrow> string \<Rightarrow> xml" where
  "placeholderShape ty s =
     XObj [(''p:nvSpPr'', XArr [XObj [(''p:nvPr'', XArr [XObj [(''p:ph'',
              XArr [XObj [(''$'', XObj [(''type'', XStr ty)])]])]])]]),
           (''p:txBody'', XArr [XObj [(''a:p'', XArr [textParagraph s])]])]"

definition slideOf :: "xml list \<Rightarrow> xml" where
  "slideOf sps =
     XObj [(''p:sld'', XObj [(''p:cSld'', XArr [XObj [(''p:spTree'',
              XArr [XObj [(''p:sp'', XArr sps)]])]])])]"

text \<open>The number in the name of a slide entry \<open>ppt/slides/slide<digits>.xml\<close>.\<close>

definition slideFileNumber :: "string \<Rightarrow> nat option" where
  "slideFileNumber f =
     (if isSlideKey f then Some (natOfDigits (takeWhile isDigit (drop 16 f))) else None)"

text \<open>Entries of an archive: one that parses to nothing, one that parses to a document.\<close>

definition emptyEntry :: zipEntry where
  "emptyEntry = \<lparr>isDir = False, asXml = Inr None, asBase64 = Inr []\<rparr>"

definition xmlEntry :: "xml \<Rightarrow> zipEntry" where
  "xmlEntry doc = \<lparr>isDir = False, asXml = Inr (Some doc), asBase64 = Inr []\<rparr>"

definition titledSlide :: "string \<Rightarrow> xml" where
  "titledSlide s = slideOf [placeholderShape ''title'' s]"

text \<open>
  The relationship manifest that belongs to a slide entry: \<open>_rels/<name>.rels\<close> beside it.
\<close>

definition ownRelKey :: "string \<Rightarrow> string" where
  "ownRelKey slideKey =
     (let segs = split CHR ''/'' slideKey
      in join ''/'' (butlast segs @ [''_rels'', last segs @ ''.rels'']))"

text \<open>A picture shape that embeds a relationship, and a slide of picture shapes, as the
  parser returns them.\<close>

definition pictureShape :: "string \<Rightarrow> xml" where
  "pictureShape rId =
     XObj [(''p:spPr'', XArr [XObj [(''a:xfrm'', XArr [XObj
              [(''a:off'', XArr [XObj [(''$'', XObj [(''x'', XStr ''0''), (''y'', XStr ''0'')])]]),
               (''a:ext'', XArr [XObj [(''$'', XObj [(''cx'', XStr ''914400''), (''cy'', XStr ''685800'')])]])]])]]),
           (''p:blipFill'', XArr [XObj [(''a:blip'', XArr [XObj [(''$'', XObj [(''r:embed'', XStr rId)])]])]])]"

definition pictureSlide :: "xml list \<Rightarrow> xml" where
  "pictureSlide pics =
     XObj [(''p:sld'', XObj [(''p:cSld'', XArr [XObj [(''p:spTree'',
              XArr [XObj [(''p:pic'', XArr pics)]])]])])]"

definition mediaEntry :: "string \<Rightarrow> zipEntry" where
  "mediaEntry b64 = \<lparr>isDir = False, asXml = Inl XmlError, asBase64 = Inr b64\<rparr>"

text \<open>
  A deck whose slide entries are numbered 1 and 3; the second slide embeds the picture
  \<open>rId1\<close>, and \<open>manifest\<close> is the entry of its relationship manifest.
\<close>

definition gapDeck :: "zipEntry \<Rightarrow> zip" where
  "gapDeck manifest =
     [(''ppt/slides/slide1.xml'', xmlEntry (pictureSlide [])),
      (''ppt/slides/slide3.xml'', xmlEntry (pictureSlide [pictureShape ''rId1''])),
      (''ppt/slides/_rels/slide3.xml.rels'', manifest),
      (''ppt/media/image1.png'', mediaEntry ''AAAA'')]"


text \<open>
  A picture whose reference does not resolve: it names no relationship (the attribute
  is absent or empty), or one that the relationship map does not hold, or one whose path
  has no entry in the media cache.
\<close>

definition embedId :: "xml \<Rightarrow> xml option" where
  "embedId pic = oprop (oprop (get (Some pic) [''p:blipFill'', ''a:blip'']) ''$'') ''r:embed''"

definition unresolved :: "(string \<rightharpoonup> string) \<Rightarrow> (string \<rightharpoonup> string) \<Rightarrow> xml \<Rightarrow> bool" where
  "unresolved rels mediaCache pic =
     (case embedId pic of
        None \<Rightarrow> True
      | Some rId \<Rightarrow>
          \<not> truthy (Some rId)
          \<or> (case rels (toStr rId) of
                None \<Rightarrow> True
              | Some zipPath \<Rightarrow> mediaCache zipPath = None))"

text \<open>
  The item that stands for one entry of a directory, if any: none for a skipped name, a
  collapsed group for a directory, a link for a Markdown file, a download link for a
  spreadsheet when the builder handles spreadsheets, none for any other file.
\<close>

definition represented ::
  "string list \<Rightarrow> bool \<Rightarrow> (string \<Rightarrow> string \<Rightarrow> int) \<Rightarrow> string \<Rightarrow> string \<times> fsnode \<Rightarrow> SidebarItem option" where
  "represented skipped xlsx lc urlBase entry =
     (if fst entry \<in> set skipped then None
      else if isDirectory (snd entry)
      then Some (SidebarItem (fst entry) None (Some True)
                   (Some (buildItemsOf skipped xlsx lc (snd entry) (urlBase @ fst entry @ ''/''))))
      else if endsWith (fst entry) ''.md''
      then Some (SidebarItem (take (length (fst entry) - 3) (fst entry))
                   (Some (urlBase @ take (length (fst entry) - 3) (fst entry))) None None)
      else if xlsx \<and> endsWith (fst entry) ''.xlsx''
      then Some (SidebarItem (downloadGlyph @ '' '' @ take (length (fst entry) - 5) (fst entry))
                   (Some (urlBase @ fst entry)) None None)
      else None)"

text \<open>A comparator that holds all names equal, and an output tree.\<close>

definition noLocale :: "string \<Rightarrow> string \<Rightarrow> int" where
  "noLocale a b = 0"

definition siteTree :: fsnode where
  "siteTree =
     Dir [(''a.md'', File []), (''index.md'', File []), (''sub'', Dir [(''b.md'', File [])]),
          (''data.xlsx'', File []), (''public'', Dir [(''slides'', Dir [])]),
          (''sidebar.ts'', File []), (''notes.txt'', File [])]"

text \<open>Two states of the file system hold the same files with the same contents.\<close>

definition sameFiles :: "fsnode \<Rightarrow> fsnode \<Rightarrow> bool" where
  "sameFiles fs fs' = (\<forall>p c. (lookup fs' p = Some (File c)) = (lookup fs p = Some (File c)))"

text \<open>The conversion that the HTML-viewer variant runs for a file, by its extension.\<close>

definition conversion3 :: "env \<Rightarrow> fsnode \<Rightarrow> path \<Rightarrow> error + string" where
  "conversion3 E fs filePath =
     (if toLowerCase (extname (last filePath)) = ''.pptx''
      then convertHtml3 E fs filePath
             (basenameExt (last filePath) (toLowerCase (extname (last filePath))))
      else convertBody2 E fs filePath)"

text \<open>
  An environment for the examples: the Word converter fails on the bytes \<open>bad\<close> and
  returns \<open>body\<close> otherwise, and no archive opens.
\<close>

definition testEnv :: env where
  "testEnv =
     \<lparr>convertDocx = (\<lambda>raw. if raw = ''bad'' then Inl DocxError else Inr ''body''),
      loadAsync = (\<lambda>raw. Inl ArchiveError),
      buildPresentationHtml = (\<lambda>ttl slides w h. ''<html>''),
      encodeURIComponent = (\<lambda>s. s),
      localeCompare = noLocale,
      sidebarSource = (\<lambda>items. ''export default'')\<rparr>"

text \<open>An environment in which every archive opens, as a deck without entries.\<close>

definition deckEnv :: env where
  "deckEnv =
     \<lparr>convertDocx = (\<lambda>raw. Inr ''body''),
      loadAsync = (\<lambda>raw. Inr []),
      buildPresentationHtml = (\<lambda>ttl slides w h. ''<html>''),
      encodeURIComponent = (\<lambda>s. s),
      localeCompare = noLocale,
      sidebarSource = (\<lambda>items. ''export default'')\<rparr>"

text \<open>
  An input directory with one deck, and an output directory in which the path of the
  deck's Markdown wrapper is taken by a directory.
\<close>

definition blockedTree :: fsnode where
  "blockedTree =
     Dir [(''in'', Dir [(''deck.pptx'', File ''zip'')]),
          (''out'', Dir [(''deck.md'', Dir [])])]"

text \<open>File systems for the examples: an input directory with one document and an output
  directory with files of an earlier run; an input directory without any document.\<close>

definition staleTree :: "string \<Rightarrow> fsnode" where
  "staleTree raw =
     Dir [(''in'', Dir [(''a.docx'', File raw)]),
          (''out'', Dir [(''old.md'', File ''stale''), (''sub'', Dir [(''x.txt'', File ''y'')])])]"

definition emptyInputTree :: fsnode where
  "emptyInputTree = Dir [(''in'', Dir [(''notes.txt'', File ''x'')])]"

section \<open>Properties of the path resolver\<close>

lemma split_nonempty: "split c s \<noteq> []"
  by (induction s) (auto split: list.splits)

lemma resolveLoop_foldl: "resolveLoop ps acc = foldl foldStep acc ps"
  by (induction ps arbitrary: acc) (simp_all add: foldStep_def)

lemma split_no_sep: "c \<notin> set s \<Longrightarrow> split c s = [s]"
  by (induction s) (auto split: list.splits)

lemma split_append_sep:
  "c \<notin> set t \<Longrightarrow> split c (s @ c # t) = split c s @ [t]"
proof (induction s)
  case Nil
  then show ?case by (simp add: split_no_sep)
next
  case (Cons x s)
  then show ?case
    by (cases "split c s") (simp_all add: split_nonempty)
qed

lemma join_Cons: "ys \<noteq> [] \<Longrightarrow> join sep (x # ys) = x @ sep @ join sep ys"
  by (cases ys) simp_all

lemma join_snoc:
  "xs \<noteq> [] \<Longrightarrow> join sep (xs @ [t]) = join sep xs @ sep @ t"
proof (induction xs)
  case Nil
  then show ?case by simp
next
  case (Cons x xs)
  show ?case
  proof (cases "xs = []")
    case True
    then show ?thesis by simp
  next
    case False
    with Cons show ?thesis by (simp add: join_Cons)
  qed
qed

lemma join_split: "join [c] (split c s) = s"
proof (induction s)
  case Nil
  then show ?case by simp
next
  case (Cons x s)
  obtain y ys where ys: "split c s = y # ys"
    using split_nonempty [of c s] by (cases "split c s") auto
  show ?case
  proof (cases "x = c")
    case True
    then show ?thesis using Cons by (simp add: join_Cons split_nonempty)
  next
    case False
    show ?thesis
    proof (cases ys)
      case Nil
      then show ?thesis using Cons False ys by simp
    next
      case (Cons z zs)
      then show ?thesis using Cons.IH False ys by simp
    qed
  qed
qed

lemma dropWhile_until_absent: "c \<notin> set t \<Longrightarrow> dropWhile (\<lambda>x. x \<noteq> c) t = []"
  by (induction t) auto

lemma dropWhile_until_first:
  "c \<notin> set t \<Longrightarrow> dropWhile (\<lambda>x. x \<noteq> c) (t @ c # s) = c # s"
  by (induction t) auto

lemma dirPortion_append:
  assumes "CHR ''/'' \<notin> set t"
  shows "dirPortion (s @ CHR ''/'' # t) = s"
proof -
  have "CHR ''/'' \<notin> set (rev t)"
    using assms by simp
  then have "dropWhile (\<lambda>c. c \<noteq> CHR ''/'') (rev t @ CHR ''/'' # rev s) = CHR ''/'' # rev s"
    by (rule dropWhile_until_first)
  then show ?thesis by (simp add: dirPortion_def)
qed

lemma dir_is_dirPortion:
  "join ''/'' (butlast (split CHR ''/'' base)) = dirPortion base"
proof (cases "CHR ''/'' \<in> set base")
  case False
  then have "CHR ''/'' \<notin> set (rev base)"
    by simp
  then have dw: "dropWhile (\<lambda>c. c \<noteq> CHR ''/'') (rev base) = []"
    by (rule dropWhile_until_absent)
  have "dirPortion base = []"
    unfolding dirPortion_def dw by simp
  with False show ?thesis
    by (simp add: split_no_sep)
next
  case True
  then obtain s t where st: "base = s @ CHR ''/'' # t" "CHR ''/'' \<notin> set t"
    by (meson split_list_last)
  have "join ''/'' (butlast (split CHR ''/'' base)) = join ''/'' (split CHR ''/'' s)"
    using st by (simp add: split_append_sep)
  also have "\<dots> = s"
    by (rule join_split)
  finally show ?thesis
    using st by (simp add: dirPortion_append)
qed

text \<open>
  C6. Resolving \<open>../media/image1.png\<close> from \<open>ppt/slides/slide1.xml\<close> gives
  \<open>ppt/media/image1.png\<close>, and on every input the resolver of the source computes what
  the specification words describe: the directory portion of the base, joined to the
  target by a separator, split on the separator and folded from the left, where \<open>..\<close>
  pops the last segment kept (nothing on an empty stack), \<open>.\<close> is dropped and every other
  segment is pushed.
\<close>

theorem resolveZipPath_spec:
  "resolveZipPath ''ppt/slides/slide1.xml'' ''../media/image1.png'' = ''ppt/media/image1.png''
   \<and> (\<forall>base target. resolveZipPath base target = resolveSpec base target)"
proof
  show "resolveZipPath ''ppt/slides/slide1.xml'' ''../media/image1.png'' = ''ppt/media/image1.png''"
    by (simp add: resolveZipPath_def)
  show "\<forall>base target. resolveZipPath base target = resolveSpec base target"
    by (simp add: resolveZipPath_def resolveSpec_def resolveLoop_foldl dir_is_dirPortion)
qed

theorem resolveZipPath_spec_witness:
  "resolveZipPath ''a/b/c.xml'' ''./../x/../y.png'' = ''a/y.png''
   \<and> resolveSpec ''a/b/c.xml'' ''./../x/../y.png'' = ''a/y.png''"
proof -
  have "resolveZipPath ''a/b/c.xml'' ''./../x/../y.png'' = resolveSpec ''a/b/c.xml'' ''./../x/../y.png''"
    using resolveZipPath_spec by blast
  moreover have "resolveZipPath ''a/b/c.xml'' ''./../x/../y.png'' = ''a/y.png''"
    by (simp add: resolveZipPath_def)
  ultimately show ?thesis by simp
qed

section \<open>Blank lines in a body block\<close>

lemma takeWhile_nl_replicate:
  "v = [] \<or> hd v \<noteq> nl \<Longrightarrow> takeWhile (\<lambda>x. x = nl) (replicate k nl @ v) = replicate k nl"
  by (induction k) (auto simp: takeWhile_eq_Nil_iff)

lemma dropWhile_nl_replicate:
  "v = [] \<or> hd v \<noteq> nl \<Longrightarrow> dropWhile (\<lambda>x. x = nl) (replicate k nl @ v) = v"
  by (induction k) (auto simp: dropWhile_eq_self_iff)

lemma replaceNewlineRuns_short:
  "v = [] \<or> hd v \<noteq> nl \<Longrightarrow> replaceNewlineRuns (nl # v) = nl # replaceNewlineRuns v"
  "v = [] \<or> hd v \<noteq> nl \<Longrightarrow> replaceNewlineRuns (nl # nl # v) = nl # nl # replaceNewlineRuns v"
  using takeWhile_nl_replicate [of v 0]
  by (auto simp: replaceNewlineRuns.simps)

lemma replaceNewlineRuns_run:
  assumes "v = [] \<or> hd v \<noteq> nl"
  shows "replaceNewlineRuns (replicate k nl @ v)
         = replicate (if 3 \<le> k then 2 else k) nl @ replaceNewlineRuns v"
proof (cases "3 \<le> k")
  case True
  then obtain j where k: "k = Suc j" by (cases k) auto
  have "replaceNewlineRuns (nl # replicate j nl @ v)
        = [nl, nl] @ replaceNewlineRuns (dropWhile (\<lambda>x. x = nl) (nl # replicate j nl @ v))"
    using True k takeWhile_nl_replicate [OF assms, of k]
    by (subst replaceNewlineRuns.simps) simp
  moreover have "dropWhile (\<lambda>x. x = nl) (nl # replicate j nl @ v) = v"
    using dropWhile_nl_replicate [OF assms, of k] k by simp
  ultimately show ?thesis using True k by (simp add: numeral_2_eq_2)
next
  case False
  then consider "k = 0" | "k = 1" | "k = 2" by linarith
  then show ?thesis
    using assms by cases (simp_all add: replaceNewlineRuns_short numeral_2_eq_2)
qed

lemma replaceNewlineRuns_Cons:
  "replaceNewlineRuns (c # cs) =
     (if 3 \<le> length (takeWhile (\<lambda>x. x = nl) (c # cs))
      then [nl, nl] @ replaceNewlineRuns (dropWhile (\<lambda>x. x = nl) (c # cs))
      else c # replaceNewlineRuns cs)"
  by (rule replaceNewlineRuns.simps(2))

lemma replaceNewlineRuns_append:
  "u = [] \<or> last u \<noteq> nl \<Longrightarrow> replaceNewlineRuns (u @ w) = replaceNewlineRuns u @ replaceNewlineRuns w"
proof (induction u rule: replaceNewlineRuns.induct)
  case 1
  then show ?case by (simp add: replaceNewlineRuns.simps(1))
next
  case (2 c cs)
  let ?P = "\<lambda>x. x = nl"
  from 2(3) have lst: "last (c # cs) \<noteq> nl" by simp
  have mem: "last (c # cs) \<in> set (c # cs)" by (rule last_in_set) simp
  have tw: "takeWhile ?P (c # cs @ w) = takeWhile ?P (c # cs)"
    using takeWhile_append1 [OF mem, of ?P w] lst by simp
  have dw: "dropWhile ?P (c # cs @ w) = dropWhile ?P (c # cs) @ w"
    using dropWhile_append1 [OF mem, of ?P w] lst by simp
  have unfold_w: "replaceNewlineRuns (c # cs @ w) =
     (if 3 \<le> length (takeWhile ?P (c # cs))
      then [nl, nl] @ replaceNewlineRuns (dropWhile ?P (c # cs) @ w)
      else c # replaceNewlineRuns (cs @ w))"
    unfolding replaceNewlineRuns_Cons [of c "cs @ w"] tw dw ..
  show ?case
  proof (cases "3 \<le> length (takeWhile ?P (c # cs))")
    case True
    have ne: "dropWhile ?P (c # cs) \<noteq> []"
    proof
      assume "dropWhile ?P (c # cs) = []"
      then have "\<forall>x\<in>set (c # cs). x = nl"
        unfolding dropWhile_eq_Nil_conv .
      with mem lst show False by blast
    qed
    have "c # cs = takeWhile ?P (c # cs) @ dropWhile ?P (c # cs)"
      by (rule takeWhile_dropWhile_id [symmetric])
    then have "last (c # cs) = last (takeWhile ?P (c # cs) @ dropWhile ?P (c # cs))"
      by (rule arg_cong)
    also have "\<dots> = last (dropWhile ?P (c # cs))"
      using ne by (rule last_appendR)
    finally have "last (dropWhile ?P (c # cs)) \<noteq> nl"
      using lst by simp
    then have "dropWhile ?P (c # cs) = [] \<or> last (dropWhile ?P (c # cs)) \<noteq> nl" ..
    from 2(1) [OF True this] have ih:
      "replaceNewlineRuns (dropWhile ?P (c # cs) @ w)
       = replaceNewlineRuns (dropWhile ?P (c # cs)) @ replaceNewlineRuns w" .
    have "replaceNewlineRuns (c # cs @ w)
          = [nl, nl] @ replaceNewlineRuns (dropWhile ?P (c # cs)) @ replaceNewlineRuns w"
      unfolding unfold_w ih using True by simp
    moreover have "replaceNewlineRuns (c # cs) = [nl, nl] @ replaceNewlineRuns (dropWhile ?P (c # cs))"
      unfolding replaceNewlineRuns_Cons [of c cs] using True by simp
    ultimately show ?thesis by simp
  next
    case False
    have "cs = [] \<or> last cs \<noteq> nl"
      using lst by (cases cs) auto
    from 2(2) [OF False this] have ih:
      "replaceNewlineRuns (cs @ w) = replaceNewlineRuns cs @ replaceNewlineRuns w" .
    have "replaceNewlineRuns (c # cs @ w) = c # replaceNewlineRuns cs @ replaceNewlineRuns w"
      unfolding unfold_w ih using False by simp
    moreover have "replaceNewlineRuns (c # cs) = c # replaceNewlineRuns cs"
      unfolding replaceNewlineRuns_Cons [of c cs] using False by simp
    ultimately show ?thesis by simp
  qed
qed

text \<open>
  C3, as amended. The lines of a body block are joined by line feeds. In the joined
  text, every maximal run of three or more line feeds (two or more blank lines in a row
  between two lines of text) is replaced by exactly two line feeds, which is one blank
  line; a run of one or two line feeds is left as it is. Whatever stands before and
  after the run is rendered on its own.
\<close>

theorem blank_runs_collapse:
  assumes "forEach mdLine paragraphs = Inr lines"
    and "join [nl] lines = u @ replicate k nl @ v"
    and "u = [] \<or> last u \<noteq> nl"
    and "v = [] \<or> hd v \<noteq> nl"
  shows "paragraphsToMarkdown paragraphs
         = Inr (replaceNewlineRuns u @ replicate (if 3 \<le> k then 2 else k) nl @ replaceNewlineRuns v)"
  using assms
  by (simp add: paragraphsToMarkdown_def replaceNewlineRuns_append replaceNewlineRuns_run)

lemma mdLine_text:
  "trim s \<noteq> [] \<Longrightarrow> mdLine (textParagraph s) = Inr (''- '' @ s)"
  by (simp add: mdLine_def textParagraph_def parseParagraph_def runText_def tText_def repeat_def)

lemma mdLine_blank: "mdLine (XStr []) = Inr []"
  by (simp add: mdLine_def parseParagraph_def trim_def)

text \<open>
  C3 as stated fails: a run of two blank lines, fewer than three, is not left
  unchanged. It is rendered as three line feeds, which the replacement collapses to one
  blank line.
\<close>

theorem two_blank_lines_counterexample:
  "forEach mdLine [textParagraph ''a'', XStr [], XStr [], textParagraph ''b'']
     = Inr [''- a'', [], [], ''- b'']
   \<and> blankRuns [''- a'', [], [], ''- b''] = [2]
   \<and> paragraphsToMarkdown [textParagraph ''a'', XStr [], XStr [], textParagraph ''b'']
     = Inr (''- a'' @ [nl, nl] @ ''- b'')
   \<and> blankRuns (split nl (''- a'' @ [nl, nl] @ ''- b'')) = [1]"
  by (simp add: paragraphsToMarkdown_def mdLine_text mdLine_blank trim_def isWs_def
      replaceNewlineRuns.simps blankRuns_def nl_def)

theorem blank_runs_collapse_witness:
  "paragraphsToMarkdown [textParagraph ''a'', XStr [], XStr [], XStr [], textParagraph ''b'']
   = Inr (''- a'' @ [nl, nl] @ ''- b'')"
proof -
  let ?ps = "[textParagraph ''a'', XStr [], XStr [], XStr [], textParagraph ''b'']"
  have 1: "forEach mdLine ?ps = Inr [''- a'', [], [], [], ''- b'']"
    by (simp add: mdLine_text mdLine_blank trim_def isWs_def)
  have 2: "join [nl] [''- a'', [], [], [], ''- b''] = ''- a'' @ replicate 4 nl @ ''- b''"
    by (simp add: numeral_eq_Suc)
  have 3: "''- a'' = [] \<or> last ''- a'' \<noteq> nl"
    by (simp add: nl_def)
  have 4: "''- b'' = [] \<or> hd ''- b'' \<noteq> nl"
    by (simp add: nl_def)
  have 5: "replaceNewlineRuns ''- a'' = ''- a''" "replaceNewlineRuns ''- b'' = ''- b''"
    by (simp_all add: replaceNewlineRuns.simps nl_def)
  show ?thesis
    using blank_runs_collapse [OF 1 2 3 4] 5 by (simp add: numeral_eq_Suc)
qed

section \<open>The title of a slide\<close>

lemma join_not_Nil: "xs \<noteq> [] \<Longrightarrow> [] \<notin> set xs \<Longrightarrow> join sep xs \<noteq> []"
  by (induction sep xs rule: join.induct) auto

lemma shapeTexts_join_not_Nil: "shapeTexts sp \<noteq> [] \<Longrightarrow> join sep (shapeTexts sp) \<noteq> []"
  by (rule join_not_Nil) (auto simp: shapeTexts_def)

lemma slideLoop_Cons:
  "slideLoop (sp # sps) acc =
     (if \<not> textBearing sp then slideLoop sps acc
      else if isTitle sp \<and> title acc = []
        then slideLoop sps (acc\<lparr>title := join '' '' (shapeTexts sp)\<rparr>)
      else (case paragraphsToMarkdown (shapeParagraphs sp) of
              Inl e \<Rightarrow> Inl e
            | Inr block \<Rightarrow>
                slideLoop sps
                  (if trim block \<noteq> [] then acc\<lparr>bodyBlocks := bodyBlocks acc @ [block]\<rparr> else acc)))"
  unfolding textBearing_def by (simp split: sum.splits)

declare slideLoop.simps(2) [simp del]

lemma forEach_Cons_Inr:
  "shapeBlock x = Inr y \<Longrightarrow>
   forEach shapeBlock (x # xs)
   = (case forEach shapeBlock xs of Inl e \<Rightarrow> Inl e | Inr ys \<Rightarrow> Inr (y # ys))"
  by simp

lemma forEach_Cons_Inl: "shapeBlock x = Inl e \<Longrightarrow> forEach shapeBlock (x # xs) = Inl e"
  by simp

lemma slideLoop_bodies:
  "title acc \<noteq> [] \<Longrightarrow>
   slideLoop sps acc =
     (case forEach shapeBlock sps of
        Inl e \<Rightarrow> Inl e
      | Inr blocks \<Rightarrow> Inr (acc\<lparr>bodyBlocks := bodyBlocks acc @ concat blocks\<rparr>))"
proof (induction sps arbitrary: acc)
  case Nil
  then show ?case by simp
next
  case (Cons sp sps)
  note ih = Cons.IH
  show ?case
  proof (cases "textBearing sp")
    case False
    then have sb: "shapeBlock sp = Inr []"
      by (simp add: shapeBlock_def)
    from False have step: "slideLoop (sp # sps) acc = slideLoop sps acc"
      by (simp add: slideLoop_Cons)
    show ?thesis
      unfolding step ih [OF Cons.prems] forEach_Cons_Inr [OF sb]
      by (simp split: sum.splits)
  next
    case True
    show ?thesis
    proof (cases "paragraphsToMarkdown (shapeParagraphs sp)")
      case (Inl e)
      then have sb: "shapeBlock sp = Inl e"
        using True by (simp add: shapeBlock_def)
      have step: "slideLoop (sp # sps) acc = Inl e"
        using True Inl Cons.prems by (simp add: slideLoop_Cons)
      show ?thesis
        unfolding step forEach_Cons_Inl [OF sb] by simp
    next
      case (Inr block)
      let ?acc' = "if trim block \<noteq> [] then acc\<lparr>bodyBlocks := bodyBlocks acc @ [block]\<rparr> else acc"
      have sb: "shapeBlock sp = Inr (if trim block \<noteq> [] then [block] else [])"
        using True Inr by (simp add: shapeBlock_def)
      have t': "title ?acc' \<noteq> []"
        using Cons.prems by simp
      have step: "slideLoop (sp # sps) acc = slideLoop sps ?acc'"
        using True Inr Cons.prems by (simp add: slideLoop_Cons)
      show ?thesis
        unfolding step ih [OF t'] forEach_Cons_Inr [OF sb]
        by (simp split: sum.splits)
    qed
  qed
qed

lemma slideLoop_spec:
  "title acc = [] \<Longrightarrow>
   slideLoop sps acc =
     (case forEach shapeBlock (withoutFirst titleShape sps) of
        Inl e \<Rightarrow> Inl e
      | Inr blocks \<Rightarrow> Inr (acc\<lparr>title := titleOf sps, bodyBlocks := bodyBlocks acc @ concat blocks\<rparr>))"
proof (induction sps arbitrary: acc)
  case Nil
  then show ?case by (simp add: titleOf_def)
next
  case (Cons sp sps)
  note ih = Cons.IH
  show ?case
  proof (cases "titleShape sp")
    case True
    then have tb: "textBearing sp" "shapeTexts sp \<noteq> []" "isTitle sp"
      by (simp_all add: titleShape_def textBearing_def)
    let ?acc' = "acc\<lparr>title := join '' '' (shapeTexts sp)\<rparr>"
    have "title ?acc' \<noteq> []"
      using tb(2) by (simp add: shapeTexts_join_not_Nil)
    then have rest: "slideLoop sps ?acc' =
       (case forEach shapeBlock sps of
          Inl e \<Rightarrow> Inl e
        | Inr blocks \<Rightarrow> Inr (?acc'\<lparr>bodyBlocks := bodyBlocks ?acc' @ concat blocks\<rparr>))"
      by (rule slideLoop_bodies)
    have step: "slideLoop (sp # sps) acc = slideLoop sps ?acc'"
      using tb Cons.prems by (simp add: slideLoop_Cons)
    have wf: "withoutFirst titleShape (sp # sps) = sps"
      using True by simp
    have tl: "titleOf (sp # sps) = join '' '' (shapeTexts sp)"
      using True by (simp add: titleOf_def)
    show ?thesis
      unfolding step rest wf tl by (simp split: sum.splits)
  next
    case False
    have tl: "titleOf (sp # sps) = titleOf sps"
      using False by (simp add: titleOf_def)
    have wf: "withoutFirst titleShape (sp # sps) = sp # withoutFirst titleShape sps"
      using False by simp
    show ?thesis
    proof (cases "textBearing sp")
      case nb: False
      then have sb: "shapeBlock sp = Inr []"
        by (simp add: shapeBlock_def)
      from nb have step: "slideLoop (sp # sps) acc = slideLoop sps acc"
        by (simp add: slideLoop_Cons)
      show ?thesis
        unfolding step ih [OF Cons.prems] wf tl forEach_Cons_Inr [OF sb]
        by (simp split: sum.splits)
    next
      case True
      from False True have nt: "\<not> isTitle sp"
        by (simp add: titleShape_def)
      show ?thesis
      proof (cases "paragraphsToMarkdown (shapeParagraphs sp)")
        case (Inl e)
        then have sb: "shapeBlock sp = Inl e"
          using True by (simp add: shapeBlock_def)
        have step: "slideLoop (sp # sps) acc = Inl e"
          using True Inl nt by (simp add: slideLoop_Cons)
        show ?thesis
          unfolding step wf forEach_Cons_Inl [OF sb] by simp
      next
        case (Inr block)
        let ?acc' = "if trim block \<noteq> [] then acc\<lparr>bodyBlocks := bodyBlocks acc @ [block]\<rparr> else acc"
        have sb: "shapeBlock sp = Inr (if trim block \<noteq> [] then [block] else [])"
          using True Inr by (simp add: shapeBlock_def)
        have t': "title ?acc' = []"
          using Cons.prems by simp
        have step: "slideLoop (sp # sps) acc = slideLoop sps ?acc'"
          using True Inr nt by (simp add: slideLoop_Cons)
        show ?thesis
          unfolding step ih [OF t'] wf tl forEach_Cons_Inr [OF sb]
          by (simp split: sum.splits)
      qed
    qed
  qed
qed

lemma parseSlideDoc_slideSpec:
  "parseSlideDoc slideDoc = slideSpec (slideShapes slideDoc)"
proof (cases "truthy (get slideDoc [''p:sld'', ''p:cSld'', ''p:spTree''])")
  case False
  then show ?thesis
    by (simp add: parseSlideDoc_def slideSpec_def slideShapes_def titleOf_def)
next
  case True
  have "title \<lparr>title = [], bodyBlocks = []\<rparr> = []"
    by simp
  from slideLoop_spec [OF this] True show ?thesis
    by (simp add: parseSlideDoc_def slideSpec_def slideShapes_def Let_def split: sum.splits)
qed

lemma shapeParagraphs_placeholder: "shapeParagraphs (placeholderShape ty s) = [textParagraph s]"
  by (simp add: shapeParagraphs_def txBodyOf_def placeholderShape_def)

lemma txBody_placeholder: "truthy (txBodyOf (placeholderShape ty s))"
  by (simp add: txBodyOf_def placeholderShape_def)

lemma phType_placeholder: "phType (placeholderShape ty s) = Some (XStr ty)"
  by (simp add: phType_def placeholderShape_def)

lemma ptext_textParagraph: "ptext (parseParagraph (textParagraph s)) = s"
  by (simp add: parseParagraph_def textParagraph_def runText_def tText_def)

text \<open>
  C4. The title of a slide is the extracted text of the first shape, in shape order,
  whose placeholder type is \<open>title\<close>, \<open>ctrTitle\<close> or \<open>subTitle\<close> and whose extracted
  text is not empty (the empty string when there is none); every other shape, a later
  title-typed shape included, goes the way of body content: its paragraphs are rendered
  as a block, kept unless blank. Rendering throws exactly when a body block throws.
\<close>

theorem parseSlideDoc_title:
  "parseSlideDoc slideDoc = slideSpec (slideShapes slideDoc)"
  by (rule parseSlideDoc_slideSpec)

theorem parseSlideDoc_title_witness:
  "parseSlideDoc (Some (slideOf [placeholderShape ''body'' ''Point A'', placeholderShape ''title'' ''Intro'',
                                 placeholderShape ''ctrTitle'' ''Second'']))
   = Inr \<lparr>title = ''Intro'', bodyBlocks = [''- Point A'', ''- Second'']\<rparr>"
proof -
  let ?sps = "[placeholderShape ''body'' ''Point A'', placeholderShape ''title'' ''Intro'',
               placeholderShape ''ctrTitle'' ''Second'']"
  have sh: "slideShapes (Some (slideOf ?sps)) = ?sps"
    by (simp add: slideShapes_def slideOf_def)
  have md: "paragraphsToMarkdown [textParagraph ''Point A''] = Inr ''- Point A''"
    "paragraphsToMarkdown [textParagraph ''Second''] = Inr ''- Second''"
    by (simp_all add: paragraphsToMarkdown_def mdLine_text trim_def isWs_def
        replaceNewlineRuns.simps nl_def)
  have "slideSpec ?sps = Inr \<lparr>title = ''Intro'', bodyBlocks = [''- Point A'', ''- Second'']\<rparr>"
    by (simp add: slideSpec_def titleOf_def titleShape_def textBearing_def isTitle_def
        shapeBlock_def shapeTexts_def shapeParagraphs_placeholder txBody_placeholder
        phType_placeholder ptext_textParagraph md trim_def isWs_def)
  then show ?thesis
    using parseSlideDoc_title [of "Some (slideOf ?sps)"] sh by simp
qed

section \<open>The sections of the Markdown deck\<close>

lemma slideDigits_slideKey:
  assumes "takeWhile isDigit r \<noteq> []"
  shows "slideDigits (''ppt/slides/slide'' @ r) = Some (takeWhile isDigit r)"
  using assms by (simp add: isDigit_def)

lemma bitLength_le: "n < 2 ^ k \<Longrightarrow> bitLength n \<le> k"
proof (induction k arbitrary: n)
  case 0
  then show ?case by (simp add: bitLength.simps)
next
  case (Suc k)
  show ?case
  proof (cases "n = 0")
    case True
    then show ?thesis by (simp add: bitLength.simps)
  next
    case False
    from Suc.prems have "n div 2 < 2 ^ k"
      by simp
    then have "bitLength (n div 2) \<le> k"
      by (rule Suc.IH)
    with False show ?thesis
      by (subst bitLength.simps) simp
  qed
qed

lemma toNumber_exact:
  assumes "n < 2 ^ 53"
  shows "toNumber n = enat n"
proof -
  from assms have sh: "bitLength n - 53 = 0"
    using bitLength_le [of n 53] by simp
  have "(2::nat) ^ 53 \<le> 2 ^ 1024"
    by (rule power_increasing) simp_all
  with assms have "\<not> 2 ^ 1024 \<le> n"
    by simp
  then show ?thesis
    unfolding toNumber_def sh by simp
qed

lemma map_toNumber_exact: "\<forall>n\<in>set ns. n < 2 ^ 53 \<Longrightarrow> map toNumber ns = map enat ns"
  by (induction ns) (simp_all add: toNumber_exact)

lemma sorted_map_enat: "sorted (map enat ns) = sorted ns"
  by (induction ns) auto

lemma slideNum_slideKey:
  assumes "isSlideKey k"
  shows "slideNum k = toNumber (natOfDigits (takeWhile isDigit (drop 16 k)))"
proof -
  from assms have pre: "take 16 k = ''ppt/slides/slide''"
    and ds: "takeWhile isDigit (drop 16 k) \<noteq> []"
    by (simp_all add: isSlideKey_def)
  have "k = take 16 k @ drop 16 k"
    by simp
  then have "k = ''ppt/slides/slide'' @ drop 16 k"
    using pre by simp
  then have "slideDigits k = Some (takeWhile isDigit (drop 16 k))"
    using slideDigits_slideKey [OF ds] by simp
  then show ?thesis
    by (simp add: slideNum_def)
qed

lemma sectionsFrom_nth:
  "sectionsFrom z i keys = Inr ss \<Longrightarrow>
   length ss = length keys \<and> (\<forall>j<length keys. renderSection z (i + j + 1) (keys ! j) = Inr (ss ! j))"
proof (induction keys arbitrary: i ss)
  case Nil
  then show ?case by simp
next
  case (Cons key keys)
  from Cons.prems obtain s rest where s: "renderSection z (i + 1) key = Inr s"
    and rest: "sectionsFrom z (i + 1) keys = Inr rest" and ss: "ss = s # rest"
    by (auto split: sum.splits)
  from Cons.IH [OF rest] have len: "length rest = length keys"
    and nth: "\<forall>j<length keys. renderSection z (i + 1 + j + 1) (keys ! j) = Inr (rest ! j)"
    by simp_all
  show ?case
  proof (intro conjI allI impI)
    show "length ss = length (key # keys)"
      using len ss by simp
  next
    fix j
    assume "j < length (key # keys)"
    then show "renderSection z (i + j + 1) ((key # keys) ! j) = Inr (ss ! j)"
      using s nth ss by (cases j) simp_all
  qed
qed

text \<open>
  C5. When the conversion of a deck returns, its Markdown is the sections of the slide
  entries joined by the separator: one section per entry whose name matches
  \<open>ppt/slides/slide<digits>.xml\<close>, each entry once, whatever else the archive holds, and
  the section at position \<open>i\<close> is the one rendered from the entry at position \<open>i\<close>. The
  entries are in ascending order of the doubles that \<open>parseInt\<close> reads from the numbers
  \<open>nums\<close> in their names, entries with the same double in the order of the archive. When
  all the numbers are below \<open>2^53\<close>, that is the ascending order of the numbers.
\<close>

theorem convertPptx_sections:
  assumes "convertPptx z = Inr md"
  shows "\<exists>keys nums sections.
           mset keys = mset (filter isSlideKey (map fst z))
         \<and> map slideFileNumber keys = map Some nums
         \<and> map slideNum keys = map toNumber nums
         \<and> sorted (map toNumber nums)
         \<and> (\<forall>d. filter (\<lambda>k. slideNum k = d) keys
                = filter (\<lambda>k. slideNum k = d) (filter isSlideKey (map fst z)))
         \<and> ((\<forall>n\<in>set nums. n < 2 ^ 53) \<longrightarrow> sorted nums)
         \<and> length sections = length keys
         \<and> (\<forall>i<length keys. renderSection z (i + 1) (keys ! i) = Inr (sections ! i))
         \<and> md = join sectionSeparator sections"
proof -
  from assms obtain sections where ss: "sectionsFrom z 0 (slideKeys z) = Inr sections"
    and md: "md = join sectionSeparator sections"
    by (auto simp: convertPptx_def split: sum.splits)
  let ?keys = "slideKeys z"
  define nums where "nums = map (\<lambda>k. natOfDigits (takeWhile isDigit (drop 16 k))) ?keys"
  have 1: "mset ?keys = mset (filter isSlideKey (map fst z))"
    by (simp add: slideKeys_def)
  have keys: "\<forall>k\<in>set ?keys. isSlideKey k"
    by (simp add: slideKeys_def)
  then have 2: "map slideFileNumber ?keys = map Some nums"
    by (simp add: slideFileNumber_def nums_def)
  from keys have 3: "map slideNum ?keys = map toNumber nums"
    by (simp add: slideNum_slideKey nums_def)
  have "sorted (map slideNum ?keys)"
    by (simp add: slideKeys_def)
  then have 4: "sorted (map toNumber nums)"
    unfolding 3 .
  have 5: "filter (\<lambda>k. slideNum k = d) ?keys
           = filter (\<lambda>k. slideNum k = d) (filter isSlideKey (map fst z))" for d
    unfolding slideKeys_def by (rule sort_key_stable)
  have 6: "sorted nums" if small: "\<forall>n\<in>set nums. n < 2 ^ 53"
  proof -
    from small have "map toNumber nums = map enat nums"
      by (rule map_toNumber_exact)
    with 4 have "sorted (map enat nums)"
      by simp
    then show ?thesis
      by (simp only: sorted_map_enat)
  qed
  from sectionsFrom_nth [OF ss] have 7: "length sections = length ?keys"
    and 8: "\<forall>i<length ?keys. renderSection z (i + 1) (?keys ! i) = Inr (sections ! i)"
    by simp_all
  show ?thesis
  proof (intro exI conjI)
    show "mset ?keys = mset (filter isSlideKey (map fst z))" by (rule 1)
    show "map slideFileNumber ?keys = map Some nums" by (rule 2)
    show "map slideNum ?keys = map toNumber nums" by (rule 3)
    show "sorted (map toNumber nums)" by (rule 4)
    show "\<forall>d. filter (\<lambda>k. slideNum k = d) ?keys
                = filter (\<lambda>k. slideNum k = d) (filter isSlideKey (map fst z))"
      using 5 by blast
    show "(\<forall>n\<in>set nums. n < 2 ^ 53) \<longrightarrow> sorted nums"
      using 6 by blast
    show "length sections = length ?keys" by (rule 7)
    show "\<forall>i<length ?keys. renderSection z (i + 1) (?keys ! i) = Inr (sections ! i)" by (rule 8)
    show "md = join sectionSeparator sections" by (rule md)
  qed
qed

lemma parseSlideDoc_titled:
  "parseSlideDoc (Some (titledSlide s)) = Inr \<lparr>title = s, bodyBlocks = []\<rparr>" if "s \<noteq> []"
  using that
  by (simp add: parseSlideDoc_slideSpec slideSpec_def titleOf_def titleShape_def textBearing_def
      isTitle_def shapeTexts_def shapeParagraphs_placeholder txBody_placeholder
      phType_placeholder ptext_textParagraph titledSlide_def slideShapes_def slideOf_def)

lemma slideNum_10: "slideNum ''ppt/slides/slide10.xml'' = enat 10"
  by (simp add: slideNum_def isDigit_def natOfDigits_def digitVal_def toNumber_exact)

lemma slideNum_2: "slideNum ''ppt/slides/slide2.xml'' = enat 2"
  by (simp add: slideNum_def isDigit_def natOfDigits_def digitVal_def toNumber_exact)

theorem convertPptx_sections_witness:
  "convertPptx [(''ppt/slides/slide10.xml'', xmlEntry (titledSlide ''Ten'')),
                (''ppt/presentation.xml'', emptyEntry),
                (''ppt/slides/slide2.xml'', xmlEntry (titledSlide ''Two''))]
     = Inr (''## Two'' @ sectionSeparator @ ''## Ten'')
   \<and> (\<exists>keys nums sections.
           mset keys = mset [''ppt/slides/slide10.xml'', ''ppt/slides/slide2.xml'']
         \<and> map slideFileNumber keys = map Some nums
         \<and> sorted (map toNumber nums)
         \<and> sorted nums
         \<and> length sections = length keys
         \<and> ''## Two'' @ sectionSeparator @ ''## Ten'' = join sectionSeparator sections)"
proof -
  let ?z = "[(''ppt/slides/slide10.xml'', xmlEntry (titledSlide ''Ten'')),
             (''ppt/presentation.xml'', emptyEntry),
             (''ppt/slides/slide2.xml'', xmlEntry (titledSlide ''Two''))]"
  have keys: "slideKeys ?z = [''ppt/slides/slide2.xml'', ''ppt/slides/slide10.xml'']"
    by (simp add: slideKeys_def isSlideKey_def isDigit_def slideNum_10 slideNum_2)
  have nk: "notesKey (Suc 0) = ''ppt/notesSlides/notesSlide1.xml''"
    "notesKey (Suc (Suc 0)) = ''ppt/notesSlides/notesSlide2.xml''"
    by (simp_all add: notesKey_def showNat.simps)
  have r1: "renderSection ?z (Suc 0) ''ppt/slides/slide2.xml'' = Inr ''## Two''"
    by (simp add: renderSection_def nk xmlEntry_def parseSlideDoc_titled trim_def)
  have r2: "renderSection ?z (Suc (Suc 0)) ''ppt/slides/slide10.xml'' = Inr ''## Ten''"
    by (simp add: renderSection_def nk xmlEntry_def parseSlideDoc_titled trim_def)
  have run: "convertPptx ?z = Inr (''## Two'' @ sectionSeparator @ ''## Ten'')"
    using r1 r2 by (simp add: convertPptx_def keys)
  have flt: "filter isSlideKey (map fst ?z) = [''ppt/slides/slide10.xml'', ''ppt/slides/slide2.xml'']"
    by (simp add: isSlideKey_def isDigit_def)
  have n10: "slideFileNumber ''ppt/slides/slide10.xml'' = Some 10"
    by (simp add: slideFileNumber_def isSlideKey_def isDigit_def natOfDigits_def digitVal_def)
  have n2: "slideFileNumber ''ppt/slides/slide2.xml'' = Some 2"
    by (simp add: slideFileNumber_def isSlideKey_def isDigit_def natOfDigits_def digitVal_def)
  from convertPptx_sections [OF run] obtain keys nums sections where
    a: "mset keys = mset (filter isSlideKey (map fst ?z))"
    and b: "map slideFileNumber keys = map Some nums"
    and c: "sorted (map toNumber nums)"
    and d: "(\<forall>n\<in>set nums. n < 2 ^ 53) \<longrightarrow> sorted nums"
    and e: "length sections = length keys"
    and f: "''## Two'' @ sectionSeparator @ ''## Ten'' = join sectionSeparator sections"
    by blast
  from a have a': "mset keys = mset [''ppt/slides/slide10.xml'', ''ppt/slides/slide2.xml'']"
    unfolding flt .
  then have ks: "set keys = {''ppt/slides/slide10.xml'', ''ppt/slides/slide2.xml''}"
    using mset_eq_setD by fastforce
  have small: "\<forall>n\<in>set nums. n < 2 ^ 53"
  proof
    fix n
    assume "n \<in> set nums"
    then have "Some n \<in> set (map Some nums)"
      by simp
    then have "Some n \<in> slideFileNumber ` set keys"
      unfolding b [symmetric] by simp
    then have "n = 10 \<or> n = 2"
      unfolding ks using n10 n2 by auto
    then show "n < 2 ^ 53"
      by auto
  qed
  with d have g: "sorted nums"
    by blast
  from run a' b c g e f show ?thesis
    by blast
qed

text \<open>
  The claim as written, ascending order of the numbers themselves, fails from \<open>2^53\<close>
  on: \<open>9007199254740993\<close> is \<open>2^53 + 1\<close> and reads as the double \<open>2^53\<close>, as
  \<open>9007199254740992\<close> does, so the comparator returns zero and the two entries keep the
  order of the archive, the greater number first.
\<close>

lemma bitLength_eq: "2 ^ k \<le> n \<Longrightarrow> n < 2 ^ Suc k \<Longrightarrow> bitLength n = Suc k"
proof (induction k arbitrary: n)
  case 0
  then have "n = 1"
    by simp
  then show ?case
    by (simp add: bitLength.simps)
next
  case (Suc k)
  from Suc.prems have "2 ^ k \<le> n div 2" and "n div 2 < 2 ^ Suc k" and "n \<noteq> 0"
    by auto
  then show ?case
    using Suc.IH [of "n div 2"] by (subst bitLength.simps) simp
qed

lemma bitLength_big:
  "bitLength 9007199254740993 = 54"
  "bitLength 9007199254740992 = 54"
  using bitLength_eq [of 53 9007199254740993] bitLength_eq [of 53 9007199254740992]
  by simp_all

lemma toNumber_big:
  "toNumber 9007199254740993 = enat 9007199254740992"
  "toNumber 9007199254740992 = enat 9007199254740992"
  by (simp_all add: toNumber_def bitLength_big)

lemma slideNum_big:
  "slideNum ''ppt/slides/slide9007199254740993.xml'' = enat 9007199254740992"
  "slideNum ''ppt/slides/slide9007199254740992.xml'' = enat 9007199254740992"
  by (simp_all add: slideNum_def isDigit_def natOfDigits_def digitVal_def toNumber_big)

theorem big_numbers_counterexample:
  "convertPptx [(''ppt/slides/slide9007199254740993.xml'', xmlEntry (titledSlide ''Later'')),
                (''ppt/slides/slide9007199254740992.xml'', xmlEntry (titledSlide ''Earlier''))]
     = Inr (''## Later'' @ sectionSeparator @ ''## Earlier'')
   \<and> slideFileNumber ''ppt/slides/slide9007199254740993.xml'' = Some 9007199254740993
   \<and> slideFileNumber ''ppt/slides/slide9007199254740992.xml'' = Some 9007199254740992
   \<and> \<not> sorted [9007199254740993, 9007199254740992 :: nat]"
proof -
  let ?z = "[(''ppt/slides/slide9007199254740993.xml'', xmlEntry (titledSlide ''Later'')),
             (''ppt/slides/slide9007199254740992.xml'', xmlEntry (titledSlide ''Earlier''))]"
  have keys: "slideKeys ?z = [''ppt/slides/slide9007199254740993.xml'',
                              ''ppt/slides/slide9007199254740992.xml'']"
    by (simp add: slideKeys_def isSlideKey_def isDigit_def slideNum_big)
  have nk: "notesKey (Suc 0) = ''ppt/notesSlides/notesSlide1.xml''"
    "notesKey (Suc (Suc 0)) = ''ppt/notesSlides/notesSlide2.xml''"
    by (simp_all add: notesKey_def showNat.simps)
  have r1: "renderSection ?z (Suc 0) ''ppt/slides/slide9007199254740993.xml'' = Inr ''## Later''"
    by (simp add: renderSection_def nk xmlEntry_def parseSlideDoc_titled trim_def)
  have r2: "renderSection ?z (Suc (Suc 0)) ''ppt/slides/slide9007199254740992.xml''
            = Inr ''## Earlier''"
    by (simp add: renderSection_def nk xmlEntry_def parseSlideDoc_titled trim_def)
  have run: "convertPptx ?z = Inr (''## Later'' @ sectionSeparator @ ''## Earlier'')"
    using r1 r2 by (simp add: convertPptx_def keys)
  have n1: "slideFileNumber ''ppt/slides/slide9007199254740993.xml'' = Some 9007199254740993"
    by (simp add: slideFileNumber_def isSlideKey_def isDigit_def natOfDigits_def digitVal_def)
  have n2: "slideFileNumber ''ppt/slides/slide9007199254740992.xml'' = Some 9007199254740992"
    by (simp add: slideFileNumber_def isSlideKey_def isDigit_def natOfDigits_def digitVal_def)
  from run n1 n2 show ?thesis
    by simp
qed

section \<open>The relationship map of a slide\<close>

lemma slideKeys_gapDeck:
  "slideKeys (gapDeck m) = [''ppt/slides/slide1.xml'', ''ppt/slides/slide3.xml'']"
  by (simp add: gapDeck_def slideKeys_def isSlideKey_def isDigit_def slideNum_def
      natOfDigits_def digitVal_def toNumber_exact)

lemma relKey_2: "relKey (Suc (Suc 0)) = ''ppt/slides/_rels/slide2.xml.rels''"
  by (simp add: relKey_def showNat.simps)

lemma mediaLoop_gapDeck:
  "mediaLoop (gapDeck m) Map.empty
   = Inr [''ppt/media/image1.png'' \<mapsto> ''data:image/png;base64,AAAA'']"
  by (simp add: gapDeck_def mediaEntry_def getMimeType_def getProp_def setProp_def
      toLowerCase_def toLower_def)

text \<open>
  C1 fails on a deck with a gap in the numbers of its slide entries. The loop names the
  manifest by the position of the slide, \<open>slide<i + 1>.xml.rels\<close>: for the entry
  \<open>slide3.xml\<close>, second in order, it looks for \<open>slide2.xml.rels\<close>, finds none and builds
  an empty map, whatever the slide's own manifest \<open>slide3.xml.rels\<close> holds. The picture
  of the slide is then dropped.
\<close>

theorem rels_of_gap_deck:
  "slideKeys (gapDeck manifest) = [''ppt/slides/slide1.xml'', ''ppt/slides/slide3.xml'']
   \<and> ownRelKey ''ppt/slides/slide3.xml'' = ''ppt/slides/_rels/slide3.xml.rels''
   \<and> map_of (gapDeck manifest) (ownRelKey ''ppt/slides/slide3.xml'') = Some manifest
   \<and> relKey 2 = ''ppt/slides/_rels/slide2.xml.rels''
   \<and> loadRels (gapDeck manifest) ''ppt/slides/slide3.xml'' 2 = Inr Map.empty
   \<and> slidesFrom (gapDeck manifest) [''ppt/media/image1.png'' \<mapsto> ''data:image/png;base64,AAAA'']
         9144000 6858000 0 (slideKeys (gapDeck manifest))
       = Inr [\<lparr>background = [], shapes = [], speakerNotes = []\<rparr>,
              \<lparr>background = [], shapes = [], speakerNotes = []\<rparr>]"
proof -
  have 1: "ownRelKey ''ppt/slides/slide3.xml'' = ''ppt/slides/_rels/slide3.xml.rels''"
    by (simp add: ownRelKey_def)
  have 2: "relKey 2 = ''ppt/slides/_rels/slide2.xml.rels''"
    using relKey_2 by (simp add: numeral_2_eq_2)
  have 3: "map_of (gapDeck manifest) ''ppt/slides/_rels/slide3.xml.rels'' = Some manifest"
    by (simp add: gapDeck_def)
  have 4: "map_of (gapDeck manifest) ''ppt/slides/_rels/slide2.xml.rels'' = None"
    by (simp add: gapDeck_def)
  have 5: "loadRels (gapDeck manifest) ''ppt/slides/slide3.xml'' 2 = Inr Map.empty"
    unfolding loadRels_def 2 4 by simp
  have 6: "loadRels (gapDeck manifest) ''ppt/slides/slide1.xml'' (Suc 0) = Inr Map.empty"
    by (simp add: loadRels_def relKey_def showNat.simps gapDeck_def)
  have 7: "parseSlide (Some (pictureSlide pics)) Map.empty mc w h
           = \<lparr>background = [], shapes = [], speakerNotes = []\<rparr>"
    if "pics = [] \<or> pics = [pictureShape ''rId1'']" for pics mc w h
    using that
    by (auto simp: parseSlide_def extractSlideBackground_def slideTextNodes_def slidePicNodes_def
        pictureSlide_def picShape_def pictureShape_def getProp_def prototypeNames_def
        split: option.splits)
  have 8: "notesKey (Suc 0) = ''ppt/notesSlides/notesSlide1.xml''"
    "notesKey (Suc (Suc 0)) = ''ppt/notesSlides/notesSlide2.xml''"
    by (simp_all add: notesKey_def showNat.simps)
  have 9: "htmlSlide (gapDeck manifest) mc 9144000 6858000 (Suc 0) ''ppt/slides/slide1.xml''
           = Inr \<lparr>background = [], shapes = [], speakerNotes = []\<rparr>" for mc
    unfolding htmlSlide_def 6 8 by (simp add: gapDeck_def xmlEntry_def 7)
  have 10: "htmlSlide (gapDeck manifest) mc 9144000 6858000 (Suc (Suc 0)) ''ppt/slides/slide3.xml''
           = Inr \<lparr>background = [], shapes = [], speakerNotes = []\<rparr>" for mc
    unfolding htmlSlide_def 5 [unfolded numeral_2_eq_2] 8 by (simp add: gapDeck_def xmlEntry_def 7)
  have 11: "slidesFrom (gapDeck manifest) [''ppt/media/image1.png'' \<mapsto> ''data:image/png;base64,AAAA'']
         9144000 6858000 0 (slideKeys (gapDeck manifest))
       = Inr [\<lparr>background = [], shapes = [], speakerNotes = []\<rparr>,
              \<lparr>background = [], shapes = [], speakerNotes = []\<rparr>]"
    unfolding slideKeys_gapDeck by (simp add: 9 10)
  from slideKeys_gapDeck 1 2 3 5 11 show ?thesis
    by simp
qed

theorem rels_of_gap_deck_witness:
  "loadRels (gapDeck emptyEntry) ''ppt/slides/slide3.xml'' 2 = Inr Map.empty
   \<and> map_of (gapDeck emptyEntry) (ownRelKey ''ppt/slides/slide3.xml'') = Some emptyEntry"
  using rels_of_gap_deck [of emptyEntry] by blast

text \<open>
  The root of the manifest is read as \<open>relsDoc?.['Relationships']?.[0]\<close>. When the
  parser returns the root element as an object rather than as an array, that is
  \<open>undefined\<close> and the map is empty.
\<close>

lemma loadRels_object_root:
  assumes "map_of z (relKey n) = Some entry"
    and "asXml entry = Inr (Some (XObj [(''Relationships'', XObj kvs)]))"
    and "map_of kvs ''0'' = None"
  shows "loadRels z slideKey n = Inr Map.empty"
  using assms by (simp add: loadRels_def)

section \<open>Pictures that do not resolve\<close>

text \<open>
  A picture whose reference does not resolve adds no shape, as long as neither the
  relationship that it names nor the path of that relationship is the name of a
  property of \<open>Object.prototype\<close>.
\<close>

lemma picShape_unresolved:
  assumes "unresolved rels mediaCache pic"
    and "\<And>rId. embedId pic = Some rId \<Longrightarrow> toStr rId \<notin> set prototypeNames"
    and "\<And>rId zipPath. embedId pic = Some rId \<Longrightarrow> rels (toStr rId) = Some zipPath
          \<Longrightarrow> zipPath \<notin> set prototypeNames"
  shows "picShape rels mediaCache slideW slideH pic = []"
proof (cases "embedId pic")
  case None
  then show ?thesis
    by (simp add: picShape_def embedId_def split: option.splits)
next
  case (Some rId)
  note rId = this
  show ?thesis
  proof (cases "truthy (Some rId)")
    case False
    with rId show ?thesis
      by (simp add: picShape_def embedId_def split: option.splits)
  next
    case True
    show ?thesis
    proof (cases "rels (toStr rId)")
      case None
      with rId assms(2) show ?thesis
        by (simp add: picShape_def embedId_def getProp_def Let_def split: option.splits)
    next
      case (Some zipPath)
      with rId True assms(1) have "mediaCache zipPath = None"
        by (simp add: unresolved_def)
      moreover from rId Some assms(3) have "zipPath \<notin> set prototypeNames"
        by simp
      ultimately show ?thesis
        using rId Some
        by (simp add: picShape_def embedId_def getProp_def Let_def split: option.splits)
    qed
  qed
qed

lemma parseSlide_unresolved_own:
  assumes "slidePicNodes slideDoc = before @ pic # after"
    and "unresolved rels mediaCache pic"
    and "\<And>rId. embedId pic = Some rId \<Longrightarrow> toStr rId \<notin> set prototypeNames"
    and "\<And>rId zipPath. embedId pic = Some rId \<Longrightarrow> rels (toStr rId) = Some zipPath
          \<Longrightarrow> zipPath \<notin> set prototypeNames"
  shows "parseSlide slideDoc rels mediaCache slideW slideH
         = \<lparr>background = extractSlideBackground slideDoc,
            shapes = concat (map (textShape slideW slideH) (slideTextNodes slideDoc))
                   @ concat (map (picShape rels mediaCache slideW slideH) (before @ after)),
            speakerNotes = []\<rparr>"
  using assms(1) picShape_unresolved [OF assms(2-4)] by (simp add: parseSlide_def)




text \<open>
  With names that \<open>Object.prototype\<close> does not hold, the picture that does not resolve
  is dropped and the one that resolves stays.
\<close>

lemma parseSlide_unresolved_example:
  "map inner (shapes (parseSlide (Some (pictureSlide [pictureShape ''rId1'', pictureShape ''rId9'']))
       [''rId1'' \<mapsto> ''ppt/media/image1.png'']
       [''ppt/media/image1.png'' \<mapsto> ''data:image/png;base64,AAAA''] 9144000 6858000))
   = [''<img src='' @ [dq] @ ''data:image/png;base64,AAAA'' @ [dq] @ '' style='' @ [dq]
      @ ''width:100%;height:100%;object-fit:contain;'' @ [dq] @ '' alt='' @ [dq, dq] @ ''>'']"
proof -
  let ?doc = "Some (pictureSlide [pictureShape ''rId1'', pictureShape ''rId9''])"
  let ?rels = "[''rId1'' \<mapsto> ''ppt/media/image1.png'']"
  let ?media = "[''ppt/media/image1.png'' \<mapsto> ''data:image/png;base64,AAAA'']"
  have pics: "slidePicNodes ?doc = [pictureShape ''rId1''] @ pictureShape ''rId9'' # []"
    by (simp add: slidePicNodes_def pictureSlide_def)
  have un: "unresolved ?rels ?media (pictureShape ''rId9'')"
    by (simp add: unresolved_def embedId_def pictureShape_def)
  have own: "toStr rId \<notin> set prototypeNames" if "embedId (pictureShape ''rId9'') = Some rId" for rId
    using that by (auto simp: embedId_def pictureShape_def prototypeNames_def)
  have own2: "zipPath \<notin> set prototypeNames"
    if "embedId (pictureShape ''rId9'') = Some rId" "?rels (toStr rId) = Some zipPath" for rId zipPath
    using that by (auto simp: embedId_def pictureShape_def)
  have tnodes: "slideTextNodes ?doc = []"
    by (simp add: slideTextNodes_def pictureSlide_def)
  have ok: "map inner (picShape ?rels ?media 9144000 6858000 (pictureShape ''rId1''))
            = [''<img src='' @ [dq] @ ''data:image/png;base64,AAAA'' @ [dq] @ '' style='' @ [dq]
               @ ''width:100%;height:100%;object-fit:contain;'' @ [dq] @ '' alt='' @ [dq, dq] @ ''>'']"
    by (simp add: picShape_def getTransform_def pictureShape_def getProp_def)
  show ?thesis
    using parseSlide_unresolved_own [OF pics un own own2, where slideW = 9144000 and slideH = 6858000]
      tnodes ok
    by simp
qed

section \<open>The entries that the sidebar represents\<close>

lemma mset_insertBy: "mset (insertBy le x xs) = add_mset x (mset xs)"
  by (induction xs) auto

lemma mset_sortBy: "mset (sortBy le xs) = mset xs"
  by (induction xs) (simp_all add: sortBy_def mset_insertBy)

lemma mset_concat_map_cong:
  "mset xs = mset ys \<Longrightarrow> mset (concat (map f xs)) = mset (concat (map f ys))"
proof -
  have "mset (concat (map f zs)) = (\<Sum>z\<in>#mset zs. mset (f z))" for zs
    by (induction zs) simp_all
  then show "mset xs = mset ys \<Longrightarrow> ?thesis"
    by simp
qed

lemma concat_filter_represented:
  assumes "\<And>e. e \<in> set es \<Longrightarrow> fst e \<notin> set skipped \<Longrightarrow>
             f e = (case represented skipped xlsx lc urlBase e of None \<Rightarrow> [] | Some i \<Rightarrow> [i])"
  shows "concat (map f (filter (\<lambda>e. fst e \<notin> set skipped) es))
         = List.map_filter (represented skipped xlsx lc urlBase) es"
  using assms
proof (induction es)
  case Nil
  then show ?case by simp
next
  case (Cons e es)
  show ?case
  proof (cases "fst e \<in> set skipped")
    case True
    then have "represented skipped xlsx lc urlBase e = None"
      by (simp add: represented_def)
    with True Cons show ?thesis
      by simp
  next
    case False
    with Cons.prems have "f e = (case represented skipped xlsx lc urlBase e of None \<Rightarrow> [] | Some i \<Rightarrow> [i])"
      by simp
    with False Cons show ?thesis
      by (simp split: option.splits)
  qed
qed

lemma buildItemsOf_represented:
  "mset (buildItemsOf skipped xlsx lc (Dir es) urlBase)
   = mset (List.map_filter (represented skipped xlsx lc urlBase) es)"
proof -
  let ?f = "\<lambda>entry.
          if isDirectory (snd entry)
          then [SidebarItem (fst entry) None (Some True)
                  (Some (buildItemsOf skipped xlsx lc (snd entry)
                           (urlBase @ fst entry @ ''/'')))]
          else if endsWith (fst entry) ''.md''
          then [SidebarItem (take (length (fst entry) - 3) (fst entry))
                  (Some (urlBase @ take (length (fst entry) - 3) (fst entry))) None None]
          else if xlsx \<and> endsWith (fst entry) ''.xlsx''
          then [SidebarItem (downloadGlyph @ '' '' @ take (length (fst entry) - 5) (fst entry))
                  (Some (urlBase @ fst entry)) None None]
          else []"
  let ?kept = "filter (\<lambda>e. fst e \<notin> set skipped) es"
  have "mset (buildItemsOf skipped xlsx lc (Dir es) urlBase)
        = mset (concat (map ?f (sortBy (entryLe lc) ?kept)))"
    by simp
  also have "\<dots> = mset (concat (map ?f ?kept))"
    by (rule mset_concat_map_cong) (rule mset_sortBy)
  also have "concat (map ?f ?kept) = List.map_filter (represented skipped xlsx lc urlBase) es"
    by (rule concat_filter_represented) (simp add: represented_def)
  finally show ?thesis .
qed

lemma represented_skipped:
  "name \<in> set skipped \<Longrightarrow> represented skipped xlsx lc urlBase (name, node) = None"
  by (simp add: represented_def)

lemma represented_directory:
  "name \<notin> set skipped \<Longrightarrow>
   represented skipped xlsx lc urlBase (name, Dir es)
   = Some (SidebarItem name None (Some True)
             (Some (buildItemsOf skipped xlsx lc (Dir es) (urlBase @ name @ ''/''))))"
  by (simp add: represented_def isDirectory_def)

lemma represented_md:
  "name \<notin> set skipped \<Longrightarrow> endsWith name ''.md'' \<Longrightarrow>
   represented skipped xlsx lc urlBase (name, File c) \<noteq> None"
  by (simp add: represented_def isDirectory_def)

lemma endsWith_last: "endsWith s suf \<Longrightarrow> suf \<noteq> [] \<Longrightarrow> last s = last suf"
proof -
  assume e: "endsWith s suf" and ne: "suf \<noteq> []"
  then have d: "drop (length s - length suf) s = suf" and le: "length suf \<le> length s"
    by (simp_all add: endsWith_def)
  from ne le have "length s - length suf < length s"
    by (cases suf) auto
  then have "last (drop (length s - length suf) s) = last s"
    by (rule last_drop)
  with d show ?thesis by simp
qed

lemma represented_xlsx:
  "name \<notin> set skipped \<Longrightarrow> endsWith name ''.xlsx'' \<Longrightarrow>
   (represented skipped xlsx lc urlBase (name, File c) \<noteq> None) = xlsx"
proof -
  assume n: "name \<notin> set skipped" and x: "endsWith name ''.xlsx''"
  have "\<not> endsWith name ''.md''"
  proof
    assume "endsWith name ''.md''"
    then have "last name = CHR ''d''"
      using endsWith_last [of name "''.md''"] by simp
    moreover have "last name = CHR ''x''"
      using endsWith_last [OF x] by simp
    ultimately show False by simp
  qed
  with n x show ?thesis
    by (simp add: represented_def isDirectory_def)
qed

text \<open>
  C10, as amended. At every directory level, the items that a builder generates are
  the items of the entries it represents, one item each. All
  three builders skip the names \<open>sidebar.ts\<close> and \<open>index.md\<close>, the builder of the
  HTML-viewer variant also \<open>public\<close>; every other directory gives a collapsed group,
  built from its own entries the same way, and every other Markdown file a link. The
  two builders of the converter give a download link for every other spreadsheet.
\<close>

theorem sidebar_items_represented:
  "mset (buildItems1 lc (Dir es) urlBase)
     = mset (List.map_filter (represented [''sidebar.ts'', ''index.md''] True lc urlBase) es)
   \<and> mset (buildItems3 lc (Dir es) urlBase)
     = mset (List.map_filter (represented [''sidebar.ts'', ''index.md'', ''public''] True lc urlBase) es)
   \<and> mset (buildSidebarItems lc (Dir es) urlBase)
     = mset (List.map_filter (represented [''sidebar.ts'', ''index.md''] False lc urlBase) es)"
  by (simp only: buildItems1_def buildItems3_def buildSidebarItems_def buildItemsOf_represented)

text \<open>
  C10 as stated fails for the builder of the site configuration: it has no item for a
  spreadsheet, where the builders of the converter have one.
\<close>

theorem sidebar_xlsx_counterexample:
  "buildSidebarItems noLocale (Dir [(''data.xlsx'', File [])]) ''/'' = []
   \<and> buildItems1 noLocale (Dir [(''data.xlsx'', File [])]) ''/''
     = [SidebarItem (downloadGlyph @ '' data'') (Some ''/data.xlsx'') None None]"
  by (simp add: buildSidebarItems_def buildItems1_def sortBy_def isDirectory_def endsWith_def)

theorem sidebar_items_represented_witness:
  "mset (buildItems3 noLocale siteTree ''/'')
   = mset [SidebarItem ''a'' (Some ''/a'') None None,
           SidebarItem ''sub'' None (Some True) (Some [SidebarItem ''b'' (Some ''/sub/b'') None None]),
           SidebarItem (downloadGlyph @ '' data'') (Some ''/data.xlsx'') None None]"
proof -
  show ?thesis
    using sidebar_items_represented [of noLocale _ "''/''"]
    unfolding siteTree_def
    by (simp add: represented_def isDirectory_def endsWith_def sortBy_def)
qed

section \<open>Properties of the file system\<close>

lemma lookup_Nil [simp]: "lookup n [] = Some n"
  by simp

lemma lookup_File_Cons: "lookup (File c) (s # p) = None"
  by simp

lemma lookup_Dir_Cons:
  "lookup (Dir es) (s # p) = (case map_of es s of None \<Rightarrow> None | Some child \<Rightarrow> lookup child p)"
  by simp

lemma lookup_empty_dir: "q \<noteq> [] \<Longrightarrow> lookup (Dir []) q = None"
  by (cases q) simp_all

lemma lookup_append_None: "lookup n p = None \<Longrightarrow> lookup n (p @ q) = None"
proof (induction p arbitrary: n)
  case Nil
  then show ?case by simp
next
  case (Cons s p)
  then show ?case
    by (cases n) (auto split: option.splits)
qed

lemma mkdirp_is_dir: "mkdirp p n = Inr n' \<Longrightarrow> isDirectory n'"
  by (cases p; cases n) (auto simp: isDirectory_def split: option.splits sum.splits)

lemma mkdirp_files:
  "mkdirp p n = Inr n' \<Longrightarrow> (lookup n' q = Some (File c)) = (lookup n q = Some (File c))"
proof (induction p arbitrary: n n' q)
  case Nil
  then show ?case by (cases n) auto
next
  case (Cons s p)
  from Cons.prems obtain es where n: "n = Dir es"
    by (cases n) auto
  show ?case
  proof (cases q)
    case Nil
    with Cons.prems n show ?thesis
      using mkdirp_is_dir [OF Cons.prems] by (auto simp: isDirectory_def)
  next
    case q: (Cons t q')
    show ?thesis
    proof (cases "map_of es s")
      case None
      with Cons.prems n obtain child where ch: "mkdirp p (Dir []) = Inr child"
        and n': "n' = Dir (es @ [(s, child)])"
        by (auto split: sum.splits)
      have "lookup child q' \<noteq> Some (File c)"
        using Cons.IH [OF ch, of q'] by (cases q') simp_all
      with None n n' q show ?thesis
        by (auto simp: map_add_def split: option.splits if_splits)
    next
      case (Some child)
      with Cons.prems n obtain child' where ch: "mkdirp p child = Inr child'"
        and n': "n' = Dir (AList.update s child' es)"
        by (auto split: sum.splits)
      from Cons.IH [OF ch, of q'] Some n n' q show ?thesis
        by (auto simp: update_conv' split: option.splits)
    qed
  qed
qed

lemma mkdirp_below:
  "mkdirp p n = Inr n' \<Longrightarrow> q \<noteq> [] \<Longrightarrow> lookup n' (p @ q) = lookup n (p @ q)"
proof (induction p arbitrary: n n')
  case Nil
  then show ?case by (cases n) auto
next
  case (Cons s p)
  from Cons.prems obtain es where n: "n = Dir es"
    by (cases n) auto
  show ?case
  proof (cases "map_of es s")
    case None
    with Cons.prems n obtain child where ch: "mkdirp p (Dir []) = Inr child"
      and n': "n' = Dir (es @ [(s, child)])"
      by (auto split: sum.splits)
    have "lookup child (p @ q) = lookup (Dir []) (p @ q)"
      using Cons.IH [OF ch Cons.prems(2)] .
    also have "\<dots> = None"
      using Cons.prems(2) by (simp add: lookup_empty_dir)
    finally show ?thesis
      using None n n' by (simp add: map_add_def)
  next
    case (Some child)
    with Cons.prems n obtain child' where ch: "mkdirp p child = Inr child'"
      and n': "n' = Dir (AList.update s child' es)"
      by (auto split: sum.splits)
    from Cons.IH [OF ch Cons.prems(2)] Some n n' show ?thesis
      by (simp add: update_conv')
  qed
qed

lemma mkdirp_fresh:
  "mkdirp p n = Inr n' \<Longrightarrow> lookup n p = None \<Longrightarrow> lookup n' p = Some (Dir [])"
proof (induction p arbitrary: n n')
  case Nil
  then show ?case by simp
next
  case (Cons s p)
  from Cons.prems obtain es where n: "n = Dir es"
    by (cases n) auto
  show ?case
  proof (cases "map_of es s")
    case None
    with Cons.prems n obtain child where ch: "mkdirp p (Dir []) = Inr child"
      and n': "n' = Dir (es @ [(s, child)])"
      by (auto split: sum.splits)
    have "lookup child p = Some (Dir [])"
    proof (cases p)
      case Nil
      with ch show ?thesis by simp
    next
      case (Cons t p')
      then have "lookup (Dir []) p = None" by simp
      from Cons.IH [OF ch this] show ?thesis .
    qed
    with None n n' show ?thesis
      by (simp add: map_add_def)
  next
    case (Some child)
    with Cons.prems n obtain child' where ch: "mkdirp p child = Inr child'"
      and n': "n' = Dir (AList.update s child' es)"
      by (auto split: sum.splits)
    from Cons.prems(2) Some n have "lookup child p = None"
      by simp
    from Cons.IH [OF ch this] Some n n' show ?thesis
      by (simp add: update_conv')
  qed
qed

lemma writeFileSync_lookup:
  "writeFileSync p dat n = Inr n' \<Longrightarrow> lookup n' p = Some (File dat)"
proof (induction p arbitrary: n n')
  case Nil
  then show ?case by (cases n) auto
next
  case (Cons s p)
  from Cons.prems obtain es where n: "n = Dir es"
    by (cases n) auto
  show ?case
  proof (cases "map_of es s")
    case None
    with Cons.prems n have "p = []" and "n' = Dir (es @ [(s, File dat)])"
      by (auto split: if_splits)
    with None show ?thesis
      by (simp add: map_add_def)
  next
    case (Some child)
    with Cons.prems n obtain child' where ch: "writeFileSync p dat child = Inr child'"
      and n': "n' = Dir (AList.update s child' es)"
      by (auto split: sum.splits)
    from Cons.IH [OF ch] n' show ?thesis
      by (simp add: update_conv')
  qed
qed

lemma rmSync_removes:
  "lookup n p \<noteq> None \<Longrightarrow> p \<noteq> [] \<Longrightarrow>
   \<exists>n'. rmSync p n = Inr n' \<and> (\<forall>q. lookup n' (p @ q) = None)"
proof (induction p arbitrary: n)
  case Nil
  then show ?case by simp
next
  case (Cons s p)
  from Cons.prems obtain es where n: "n = Dir es"
    by (cases n) auto
  with Cons.prems obtain child where ch: "map_of es s = Some child" and lk: "lookup child p \<noteq> None"
    by (auto split: option.splits)
  show ?case
  proof (cases "p = []")
    case True
    with n ch show ?thesis
      by (simp add: delete_conv')
  next
    case False
    from Cons.IH [OF lk False] obtain child' where r: "rmSync p child = Inr child'"
      and gone: "\<forall>q. lookup child' (p @ q) = None"
      by blast
    with n ch False show ?thesis
      by (simp add: update_conv')
  qed
qed

lemma removeOutput_clears:
  assumes "out \<noteq> []"
  shows "\<exists>fs0. removeOutput out fs = Inr fs0 \<and> (\<forall>q. lookup fs0 (out @ q) = None)"
proof (cases "existsSync fs out")
  case True
  then have "lookup fs out \<noteq> None"
    by (simp add: existsSync_def)
  from rmSync_removes [OF this assms] True show ?thesis
    by (simp add: removeOutput_def)
next
  case False
  then have "lookup fs out = None"
    by (simp add: existsSync_def)
  then have "\<forall>q. lookup fs (out @ q) = None"
    by (simp add: lookup_append_None)
  with False show ?thesis
    by (simp add: removeOutput_def)
qed

section \<open>The output directory of the docx-only variant\<close>

text \<open>
  C9. In the docx-only variant, a run that finds its input directory first removes the
  output directory with everything under it, if it exists: in the state that follows,
  no path at or under the output directory exists, whatever the files there were and
  whatever the input holds. The run then creates the output directory anew, empty,
  and goes on from that state (or stops there, when the directory cannot be created).
  The output directory is not the root of the file system.
\<close>

theorem output_directory_cleared:
  assumes "existsSync fs inp" and "out \<noteq> []"
  shows "\<exists>fs0. removeOutput out fs = Inr fs0
           \<and> (\<forall>q. lookup fs0 (out @ q) = None)
           \<and> (case mkdirp out fs0 of
                 Inl e \<Rightarrow> main2 E inp out fs = (Uncaught e, fs0)
               | Inr fs1 \<Rightarrow> lookup fs1 out = Some (Dir [])
                            \<and> main2 E inp out fs = convertAll2 E inp out fs1)"
proof -
  from removeOutput_clears [OF assms(2)] obtain fs0
    where r: "removeOutput out fs = Inr fs0" and gone: "\<forall>q. lookup fs0 (out @ q) = None"
    by blast
  from gone have none: "lookup fs0 out = None"
    by (metis append_Nil2)
  have "case mkdirp out fs0 of
          Inl e \<Rightarrow> main2 E inp out fs = (Uncaught e, fs0)
        | Inr fs1 \<Rightarrow> lookup fs1 out = Some (Dir [])
                     \<and> main2 E inp out fs = convertAll2 E inp out fs1"
    using assms(1) r mkdirp_fresh [OF _ none]
    by (simp add: main2_def split: sum.splits)
  with r gone show ?thesis
    by blast
qed


lemma isDocx_a: "isDocx [''in'', ''a.docx'']"
  by (simp add: isDocx_def startsWith_def extname_def toLowerCase_def toLower_def)

lemma outPath2_a: "outPath2 [''in''] [''out''] [''in'', ''a.docx''] = [''out'', ''a.md'']"
  by (simp add: outPath2_def relativeTo_def replaceSuffixCI_def toLowerCase_def toLower_def
      slugifyRelativePath_def extname_def basenameExt_def slugify_def isWs_def isUrlSafe_def
      pathJoin_def normalizeStep_def)

theorem output_directory_cleared_witness:
  "main2 testEnv [''in''] [''out''] (staleTree ''raw'')
   = (Done 1 0,
      Dir [(''in'', Dir [(''a.docx'', File ''raw'')]),
           (''out'', Dir [(''a.md'', File (frontmatter ''a'' ''a.docx'' @ ''body'' @ [nl]))])])"
proof -
  let ?fs0 = "Dir [(''in'', Dir [(''a.docx'', File ''raw'')])]"
  let ?fs1 = "Dir [(''in'', Dir [(''a.docx'', File ''raw'')]), (''out'', Dir [])]"
  have ex: "existsSync (staleTree ''raw'') [''in'']"
    by (simp add: existsSync_def staleTree_def)
  have ne: "[''out''] \<noteq> ([] :: path)"
    by simp
  have rm: "removeOutput [''out''] (staleTree ''raw'') = Inr ?fs0"
    by (simp add: removeOutput_def existsSync_def staleTree_def)
  have mk: "mkdirp [''out''] ?fs0 = Inr ?fs1"
    by simp
  have "main2 testEnv [''in''] [''out''] (staleTree ''raw'') = convertAll2 testEnv [''in''] [''out''] ?fs1"
    using output_directory_cleared [OF ex ne, of testEnv] rm mk by auto
  also have "\<dots> = (Done 1 0,
      Dir [(''in'', Dir [(''a.docx'', File ''raw'')]),
           (''out'', Dir [(''a.md'', File (frontmatter ''a'' ''a.docx'' @ ''body'' @ [nl]))])])"
    by (simp add: convertAll2_def walk_def isDirectory_def isDocx_a convertOne2_def outPath2_a
        tryConvert2_def convertBody2_def readFileSync_def testEnv_def basenameExt_def extname_def Let_def)
  finally show ?thesis .
qed

section \<open>A conversion that fails\<close>

lemma sameFiles_refl: "sameFiles fs fs"
  by (simp add: sameFiles_def)

lemma sameFiles_trans: "sameFiles a b \<Longrightarrow> sameFiles b c \<Longrightarrow> sameFiles a c"
  by (simp add: sameFiles_def)

lemma sameFiles_mkdirp: "mkdirp p fs = Inr fs' \<Longrightarrow> sameFiles fs fs'"
  by (simp add: sameFiles_def mkdirp_files)

lemma readFileSync_sameFiles:
  "sameFiles fs fs' \<Longrightarrow> (readFileSync fs' p = Inr c) = (readFileSync fs p = Inr c)"
proof -
  assume s: "sameFiles fs fs'"
  have "(readFileSync g p = Inr c) = (lookup g p = Some (File c))" for g
    by (simp add: readFileSync_def split: option.splits fsnode.splits)
  with s show ?thesis
    by (simp add: sameFiles_def)
qed

lemma isl_read_sameFiles:
  assumes "sameFiles fs fs'"
    and "isl (case readFileSync fs p of Inl e \<Rightarrow> Inl e | Inr raw \<Rightarrow> f raw)"
  shows "isl (case readFileSync fs' p of Inl e \<Rightarrow> Inl e | Inr raw \<Rightarrow> f raw)"
proof (cases "readFileSync fs' p")
  case (Inl e)
  then show ?thesis by simp
next
  case (Inr raw)
  then have "readFileSync fs p = Inr raw"
    using readFileSync_sameFiles [OF assms(1)] by simp
  with assms(2) Inr show ?thesis by simp
qed

lemma convertBody1_sameFiles:
  "sameFiles fs fs' \<Longrightarrow> isl (convertBody1 E fs f) \<Longrightarrow> isl (convertBody1 E fs' f)"
  unfolding convertBody1_def by (rule isl_read_sameFiles)

lemma convertBody2_sameFiles:
  "sameFiles fs fs' \<Longrightarrow> isl (convertBody2 E fs f) \<Longrightarrow> isl (convertBody2 E fs' f)"
  unfolding convertBody2_def by (rule isl_read_sameFiles)

lemma convertHtml3_sameFiles:
  "sameFiles fs fs' \<Longrightarrow> isl (convertHtml3 E fs f ttl) \<Longrightarrow> isl (convertHtml3 E fs' f ttl)"
  unfolding convertHtml3_def by (rule isl_read_sameFiles)

lemma convertOne1_failed:
  assumes "convertOne1 E inp out f (fs, ok, fail) = (r, (fs', ok', fail'))"
    and "isl (convertBody1 E fs f)"
  shows "sameFiles fs fs' \<and> ok' = ok \<and> fail' = (if r = None then fail + 1 else fail)"
proof (cases "mkdirp (butlast (outPath1 inp out f)) fs")
  case (Inl e)
  with assms(1) show ?thesis
    by (auto simp: convertOne1_def sameFiles_refl)
next
  case (Inr fs1)
  then have s: "sameFiles fs fs1"
    by (rule sameFiles_mkdirp)
  from convertBody1_sameFiles [OF s assms(2)] obtain e where "convertBody1 E fs1 f = Inl e"
    by (cases "convertBody1 E fs1 f") auto
  then have "tryConvert1 E inp out f fs1 = (Some e, fs1)"
    by (simp add: tryConvert1_def)
  with assms(1) Inr s show ?thesis
    by (auto simp: convertOne1_def)
qed

lemma convertOne2_failed:
  assumes "convertOne2 E inp out f (fs, ok, fail) = (r, (fs', ok', fail'))"
    and "isl (convertBody2 E fs f)"
  shows "sameFiles fs fs' \<and> ok' = ok \<and> fail' = (if r = None then fail + 1 else fail)"
proof (cases "mkdirp (butlast (outPath2 inp out f)) fs")
  case (Inl e)
  with assms(1) show ?thesis
    by (auto simp: convertOne2_def sameFiles_refl)
next
  case (Inr fs1)
  then have s: "sameFiles fs fs1"
    by (rule sameFiles_mkdirp)
  from convertBody2_sameFiles [OF s assms(2)] obtain e where "convertBody2 E fs1 f = Inl e"
    by (cases "convertBody2 E fs1 f") auto
  then have "tryConvert2 E inp out f fs1 = (Some e, fs1)"
    by (simp add: tryConvert2_def)
  with assms(1) Inr s show ?thesis
    by (auto simp: convertOne2_def)
qed

lemma convertOne3_failed:
  assumes "convertOne3 E inp out f (fs, ok, fail) = (r, (fs', ok', fail'))"
    and "isl (conversion3 E fs f)"
  shows "sameFiles fs fs' \<and> ok' = ok \<and> fail' = (if r = None then fail + 1 else fail)"
proof (cases "toLowerCase (extname (last f)) = ''.pptx''")
  case pptx: True
  let ?ttl = "basenameExt (last f) (toLowerCase (extname (last f)))"
  from assms(2) pptx have conv: "isl (convertHtml3 E fs f ?ttl)"
    by (simp add: conversion3_def)
  show ?thesis
  proof (cases "mkdirp (butlast (htmlOutPath inp out f)) fs")
    case (Inl e)
    with assms(1) pptx show ?thesis
      by (auto simp: convertOne3_def sameFiles_refl)
  next
    case fs1: (Inr fs1)
    then have s1: "sameFiles fs fs1"
      by (rule sameFiles_mkdirp)
    show ?thesis
    proof (cases "mkdirp (butlast (mdOutPath inp out f)) fs1")
      case (Inl e)
      with assms(1) pptx fs1 s1 show ?thesis
        by (auto simp: convertOne3_def)
    next
      case fs2: (Inr fs2)
      then have "sameFiles fs1 fs2"
        by (rule sameFiles_mkdirp)
      with s1 have s2: "sameFiles fs fs2"
        by (rule sameFiles_trans)
      from convertHtml3_sameFiles [OF s2 conv] obtain e where "convertHtml3 E fs2 f ?ttl = Inl e"
        by (cases "convertHtml3 E fs2 f ?ttl") auto
      then have "tryPptx3 E inp out f fs2 = (Some e, fs2)"
        by (simp add: tryPptx3_def Let_def)
      with assms(1) pptx fs1 fs2 s2 show ?thesis
        by (auto simp: convertOne3_def)
    qed
  qed
next
  case docx: False
  from assms(2) docx have conv: "isl (convertBody2 E fs f)"
    by (simp add: conversion3_def)
  show ?thesis
  proof (cases "mkdirp (butlast (docxOutPath inp out f)) fs")
    case (Inl e)
    with assms(1) docx show ?thesis
      by (auto simp: convertOne3_def sameFiles_refl)
  next
    case (Inr fs1)
    then have s: "sameFiles fs fs1"
      by (rule sameFiles_mkdirp)
    from convertBody2_sameFiles [OF s conv] obtain e where "convertBody2 E fs1 f = Inl e"
      by (cases "convertBody2 E fs1 f") auto
    then have "tryDocx3 E inp out f fs1 = (Some e, fs1)"
      by (simp add: tryDocx3_def)
    with assms(1) docx Inr s show ?thesis
      by (auto simp: convertOne3_def)
  qed
qed

lemma convertHtml3_result:
  assumes "sameFiles fs fs'" and "convertHtml3 E fs' f ttl = Inr html"
  shows "convertHtml3 E fs f ttl = Inr html"
proof -
  from assms(2) obtain raw where raw: "readFileSync fs' f = Inr raw"
    by (auto simp: convertHtml3_def split: sum.splits)
  then have "readFileSync fs f = Inr raw"
    using readFileSync_sameFiles [OF assms(1)] by simp
  with raw assms(2) show ?thesis
    by (simp add: convertHtml3_def)
qed

text \<open>
  What a \<open>try\<close> block that throws leaves behind. With one write in the block, the file
  system is as the block found it; a write of the model throws when the file cannot be
  opened, and then changes nothing. The block of a deck in the HTML-viewer variant has
  two writes: when it throws, either nothing was written or the viewer file was, from
  a rendering that succeeded.
\<close>

lemma tryConvert1_thrown: "tryConvert1 E inp out f fs = (Some e, fs') \<Longrightarrow> fs' = fs"
  by (auto simp: tryConvert1_def Let_def split: sum.splits)

lemma tryConvert2_thrown: "tryConvert2 E inp out f fs = (Some e, fs') \<Longrightarrow> fs' = fs"
  by (auto simp: tryConvert2_def Let_def split: sum.splits)

lemma tryDocx3_thrown: "tryDocx3 E inp out f fs = (Some e, fs') \<Longrightarrow> fs' = fs"
  by (auto simp: tryDocx3_def Let_def split: sum.splits)

lemma tryPptx3_thrown:
  assumes "tryPptx3 E inp out f fs = (Some e, fs')"
  shows "fs' = fs
       \<or> (\<exists>html. convertHtml3 E fs f (basenameExt (last f) (toLowerCase (extname (last f)))) = Inr html
              \<and> writeFileSync (htmlOutPath inp out f) html fs = Inr fs')"
  using assms by (auto simp: tryPptx3_def Let_def split: sum.splits)

lemma convertOne1_counted:
  assumes "convertOne1 E inp out f (fs, ok, fail) = (r, (fs', ok', fail'))"
    and "fail' = fail + 1"
  shows "sameFiles fs fs' \<and> ok' = ok"
proof (cases "mkdirp (butlast (outPath1 inp out f)) fs")
  case (Inl e)
  with assms show ?thesis
    by (auto simp: convertOne1_def)
next
  case (Inr fs1)
  then have s: "sameFiles fs fs1"
    by (rule sameFiles_mkdirp)
  obtain x fs2 where t: "tryConvert1 E inp out f fs1 = (x, fs2)"
    by (cases "tryConvert1 E inp out f fs1")
  with assms Inr obtain e where "x = Some e" and "fs' = fs2" and "ok' = ok"
    by (cases x) (auto simp: convertOne1_def)
  with t s show ?thesis
    by (auto dest: tryConvert1_thrown)
qed

lemma convertOne2_counted:
  assumes "convertOne2 E inp out f (fs, ok, fail) = (r, (fs', ok', fail'))"
    and "fail' = fail + 1"
  shows "sameFiles fs fs' \<and> ok' = ok"
proof (cases "mkdirp (butlast (outPath2 inp out f)) fs")
  case (Inl e)
  with assms show ?thesis
    by (auto simp: convertOne2_def)
next
  case (Inr fs1)
  then have s: "sameFiles fs fs1"
    by (rule sameFiles_mkdirp)
  obtain x fs2 where t: "tryConvert2 E inp out f fs1 = (x, fs2)"
    by (cases "tryConvert2 E inp out f fs1")
  with assms Inr obtain e where "x = Some e" and "fs' = fs2" and "ok' = ok"
    by (cases x) (auto simp: convertOne2_def)
  with t s show ?thesis
    by (auto dest: tryConvert2_thrown)
qed

lemma convertOne3_counted:
  assumes "convertOne3 E inp out f (fs, ok, fail) = (r, (fs', ok', fail'))"
    and "fail' = fail + 1"
  shows "ok' = ok
       \<and> (sameFiles fs fs'
          \<or> (toLowerCase (extname (last f)) = ''.pptx''
             \<and> (\<exists>html fs2. conversion3 E fs f = Inr html \<and> sameFiles fs fs2
                    \<and> writeFileSync (htmlOutPath inp out f) html fs2 = Inr fs')))"
proof (cases "toLowerCase (extname (last f)) = ''.pptx''")
  case pptx: True
  let ?ttl = "basenameExt (last f) (toLowerCase (extname (last f)))"
  show ?thesis
  proof (cases "mkdirp (butlast (htmlOutPath inp out f)) fs")
    case (Inl e)
    with assms pptx show ?thesis
      by (auto simp: convertOne3_def)
  next
    case fs1: (Inr fs1)
    then have s1: "sameFiles fs fs1"
      by (rule sameFiles_mkdirp)
    show ?thesis
    proof (cases "mkdirp (butlast (mdOutPath inp out f)) fs1")
      case (Inl e)
      with assms pptx fs1 show ?thesis
        by (auto simp: convertOne3_def)
    next
      case fs2: (Inr fs2)
      then have "sameFiles fs1 fs2"
        by (rule sameFiles_mkdirp)
      with s1 have s2: "sameFiles fs fs2"
        by (rule sameFiles_trans)
      obtain x fs3 where t: "tryPptx3 E inp out f fs2 = (x, fs3)"
        by (cases "tryPptx3 E inp out f fs2")
      with assms pptx fs1 fs2 obtain e where x: "x = Some e" and fs': "fs' = fs3" and ok: "ok' = ok"
        by (cases x) (auto simp: convertOne3_def)
      from tryPptx3_thrown [OF t [unfolded x]] show ?thesis
      proof
        assume "fs3 = fs2"
        with s2 fs' ok show ?thesis
          by simp
      next
        assume "\<exists>html. convertHtml3 E fs2 f ?ttl = Inr html
                  \<and> writeFileSync (htmlOutPath inp out f) html fs2 = Inr fs3"
        then obtain html where h: "convertHtml3 E fs2 f ?ttl = Inr html"
          and w: "writeFileSync (htmlOutPath inp out f) html fs2 = Inr fs3"
          by blast
        from convertHtml3_result [OF s2 h] pptx have "conversion3 E fs f = Inr html"
          by (simp add: conversion3_def)
        with w s2 fs' ok pptx show ?thesis
          by blast
      qed
    qed
  qed
next
  case docx: False
  show ?thesis
  proof (cases "mkdirp (butlast (docxOutPath inp out f)) fs")
    case (Inl e)
    with assms docx show ?thesis
      by (auto simp: convertOne3_def)
  next
    case (Inr fs1)
    then have s: "sameFiles fs fs1"
      by (rule sameFiles_mkdirp)
    obtain x fs2 where t: "tryDocx3 E inp out f fs1 = (x, fs2)"
      by (cases "tryDocx3 E inp out f fs1")
    with assms docx Inr obtain e where "x = Some e" and "fs' = fs2" and "ok' = ok"
      by (cases x) (auto simp: convertOne3_def)
    with t s show ?thesis
      by (auto dest: tryDocx3_thrown)
  qed
qed

lemma outPath1_a: "outPath1 [''in''] [''out''] [''in'', ''a.docx''] = [''out'', ''a.md'']"
  by (simp add: outPath1_def relativeTo_def replaceSuffixCI_def toLowerCase_def toLower_def
      pathJoin_def normalizeStep_def)

lemma ext_a: "toLowerCase (extname (last [''in'', ''a.docx''])) = ''.docx''"
  by (simp add: extname_def toLowerCase_def toLower_def)

lemma deck_paths:
  "htmlOutPath [''in''] [''out''] [''in'', ''deck.pptx''] = [''out'', ''public'', ''slides'', ''deck.html'']"
  "mdOutPath [''in''] [''out''] [''in'', ''deck.pptx''] = [''out'', ''deck.md'']"
  "toLowerCase (extname ''deck.pptx'') = ''.pptx''"
  by (simp_all add: htmlOutPath_def mdOutPath_def relativeTo_def replaceSuffixCI_def replaceAll_def
      toLowerCase_def toLower_def pathJoin_def normalizeStep_def extname_def)

lemma deck_rendered:
  "convertHtml3 deckEnv (Dir [(''in'', Dir [(''deck.pptx'', File ''zip'')]), n]) [''in'', ''deck.pptx''] ttl
   = Inr ''<html>''"
  by (simp add: convertHtml3_def readFileSync_def deckEnv_def convertPptxToHtml_def slideSize_def
      slideKeys_def)

lemma deck_run:
  "convertOne3 deckEnv [''in''] [''out''] [''in'', ''deck.pptx''] (blockedTree, 0, 0)
     = (None,
        (Dir [(''in'', Dir [(''deck.pptx'', File ''zip'')]),
              (''out'', Dir [(''deck.md'', Dir []),
                             (''public'', Dir [(''slides'', Dir [(''deck.html'', File ''<html>'')])])])],
         0, 1))"
  by (simp add: convertOne3_def deck_paths blockedTree_def tryPptx3_def deck_rendered Let_def)

text \<open>
  C8. In each variant, when the conversion of an input file raises an error while it
  reads and renders in memory, the body of the loop writes no file: after it, the file
  system holds the same files with the same contents as before it (directories may
  have been created for the output path), so no output file for that input exists
  unless it existed before, unchanged. The \<open>catch\<close> counts the file as failed; when
  creating a directory throws outside the \<open>try\<close>, the run stops and nothing is counted.
  A file is also counted as failed when a write in the \<open>try\<close> throws. Where the block
  has a single write (the Markdown variant, the docx-only variant, a document of the
  HTML-viewer variant) no file has been written then either. For a deck of the
  HTML-viewer variant a file counted as failed leaves the same files, or else the deck
  was rendered and its viewer file, and nothing more, was written.
\<close>

theorem failed_conversion_writes_nothing:
  "(convertOne1 E inp out f (fs, ok, fail) = (r, (fs', ok', fail')) \<longrightarrow>
      (isl (convertBody1 E fs f) \<longrightarrow>
         sameFiles fs fs' \<and> ok' = ok \<and> fail' = (if r = None then fail + 1 else fail))
    \<and> (fail' = fail + 1 \<longrightarrow> sameFiles fs fs' \<and> ok' = ok))
   \<and> (convertOne2 E inp out f (fs, ok, fail) = (r, (fs', ok', fail')) \<longrightarrow>
      (isl (convertBody2 E fs f) \<longrightarrow>
         sameFiles fs fs' \<and> ok' = ok \<and> fail' = (if r = None then fail + 1 else fail))
    \<and> (fail' = fail + 1 \<longrightarrow> sameFiles fs fs' \<and> ok' = ok))
   \<and> (convertOne3 E inp out f (fs, ok, fail) = (r, (fs', ok', fail')) \<longrightarrow>
      (isl (conversion3 E fs f) \<longrightarrow>
         sameFiles fs fs' \<and> ok' = ok \<and> fail' = (if r = None then fail + 1 else fail))
    \<and> (fail' = fail + 1 \<longrightarrow>
         ok' = ok
         \<and> (sameFiles fs fs'
            \<or> (toLowerCase (extname (last f)) = ''.pptx''
               \<and> (\<exists>html fs2. conversion3 E fs f = Inr html \<and> sameFiles fs fs2
                      \<and> writeFileSync (htmlOutPath inp out f) html fs2 = Inr fs')))))"
proof (rule conjI [OF _ conjI])
  show "convertOne1 E inp out f (fs, ok, fail) = (r, (fs', ok', fail')) \<longrightarrow>
      (isl (convertBody1 E fs f) \<longrightarrow>
         sameFiles fs fs' \<and> ok' = ok \<and> fail' = (if r = None then fail + 1 else fail))
    \<and> (fail' = fail + 1 \<longrightarrow> sameFiles fs fs' \<and> ok' = ok)"
  proof (rule impI)
    assume run: "convertOne1 E inp out f (fs, ok, fail) = (r, (fs', ok', fail'))"
    show "(isl (convertBody1 E fs f) \<longrightarrow>
         sameFiles fs fs' \<and> ok' = ok \<and> fail' = (if r = None then fail + 1 else fail))
      \<and> (fail' = fail + 1 \<longrightarrow> sameFiles fs fs' \<and> ok' = ok)"
    proof (rule conjI; rule impI)
      assume "isl (convertBody1 E fs f)"
      with run show "sameFiles fs fs' \<and> ok' = ok \<and> fail' = (if r = None then fail + 1 else fail)"
        by (rule convertOne1_failed)
    next
      assume "fail' = fail + 1"
      with run show "sameFiles fs fs' \<and> ok' = ok"
        by (rule convertOne1_counted)
    qed
  qed
  show "convertOne2 E inp out f (fs, ok, fail) = (r, (fs', ok', fail')) \<longrightarrow>
      (isl (convertBody2 E fs f) \<longrightarrow>
         sameFiles fs fs' \<and> ok' = ok \<and> fail' = (if r = None then fail + 1 else fail))
    \<and> (fail' = fail + 1 \<longrightarrow> sameFiles fs fs' \<and> ok' = ok)"
  proof (rule impI)
    assume run: "convertOne2 E inp out f (fs, ok, fail) = (r, (fs', ok', fail'))"
    show "(isl (convertBody2 E fs f) \<longrightarrow>
         sameFiles fs fs' \<and> ok' = ok \<and> fail' = (if r = None then fail + 1 else fail))
      \<and> (fail' = fail + 1 \<longrightarrow> sameFiles fs fs' \<and> ok' = ok)"
    proof (rule conjI; rule impI)
      assume "isl (convertBody2 E fs f)"
      with run show "sameFiles fs fs' \<and> ok' = ok \<and> fail' = (if r = None then fail + 1 else fail)"
        by (rule convertOne2_failed)
    next
      assume "fail' = fail + 1"
      with run show "sameFiles fs fs' \<and> ok' = ok"
        by (rule convertOne2_counted)
    qed
  qed
  show "convertOne3 E inp out f (fs, ok, fail) = (r, (fs', ok', fail')) \<longrightarrow>
      (isl (conversion3 E fs f) \<longrightarrow>
         sameFiles fs fs' \<and> ok' = ok \<and> fail' = (if r = None then fail + 1 else fail))
    \<and> (fail' = fail + 1 \<longrightarrow>
         ok' = ok
         \<and> (sameFiles fs fs'
            \<or> (toLowerCase (extname (last f)) = ''.pptx''
               \<and> (\<exists>html fs2. conversion3 E fs f = Inr html \<and> sameFiles fs fs2
                      \<and> writeFileSync (htmlOutPath inp out f) html fs2 = Inr fs'))))"
  proof (rule impI)
    assume run: "convertOne3 E inp out f (fs, ok, fail) = (r, (fs', ok', fail'))"
    show "(isl (conversion3 E fs f) \<longrightarrow>
         sameFiles fs fs' \<and> ok' = ok \<and> fail' = (if r = None then fail + 1 else fail))
      \<and> (fail' = fail + 1 \<longrightarrow>
         ok' = ok
         \<and> (sameFiles fs fs'
            \<or> (toLowerCase (extname (last f)) = ''.pptx''
               \<and> (\<exists>html fs2. conversion3 E fs f = Inr html \<and> sameFiles fs fs2
                      \<and> writeFileSync (htmlOutPath inp out f) html fs2 = Inr fs'))))"
    proof (rule conjI; rule impI)
      assume "isl (conversion3 E fs f)"
      with run show "sameFiles fs fs' \<and> ok' = ok \<and> fail' = (if r = None then fail + 1 else fail)"
        by (rule convertOne3_failed)
    next
      assume "fail' = fail + 1"
      with run show "ok' = ok
         \<and> (sameFiles fs fs'
            \<or> (toLowerCase (extname (last f)) = ''.pptx''
               \<and> (\<exists>html fs2. conversion3 E fs f = Inr html \<and> sameFiles fs fs2
                      \<and> writeFileSync (htmlOutPath inp out f) html fs2 = Inr fs')))"
        by (rule convertOne3_counted)
    qed
  qed
qed

theorem failed_conversion_writes_nothing_witness:
  "isl (convertBody1 testEnv (staleTree ''bad'') [''in'', ''a.docx''])
   \<and> convertOne1 testEnv [''in''] [''out''] [''in'', ''a.docx''] (staleTree ''bad'', 0, 0)
     = (None, (staleTree ''bad'', 0, 1))
   \<and> sameFiles (staleTree ''bad'') (staleTree ''bad'')
   \<and> lookup (staleTree ''bad'') [''out'', ''a.md''] = None
   \<and> (\<exists>html fs2. conversion3 deckEnv blockedTree [''in'', ''deck.pptx''] = Inr html
          \<and> sameFiles blockedTree fs2
          \<and> writeFileSync [''out'', ''public'', ''slides'', ''deck.html''] html fs2
            = Inr (Dir [(''in'', Dir [(''deck.pptx'', File ''zip'')]),
                        (''out'', Dir [(''deck.md'', Dir []),
                                       (''public'', Dir [(''slides'',
                                          Dir [(''deck.html'', File ''<html>'')])])])]))"
proof -
  let ?after = "Dir [(''in'', Dir [(''deck.pptx'', File ''zip'')]),
                     (''out'', Dir [(''deck.md'', Dir []),
                                    (''public'', Dir [(''slides'',
                                       Dir [(''deck.html'', File ''<html>'')])])])]"
  have conv: "isl (convertBody1 testEnv (staleTree ''bad'') [''in'', ''a.docx''])"
    by (simp add: convertBody1_def readFileSync_def staleTree_def ext_a testEnv_def)
  have run: "convertOne1 testEnv [''in''] [''out''] [''in'', ''a.docx''] (staleTree ''bad'', 0, 0)
             = (None, (staleTree ''bad'', 0, 1))"
    by (simp add: convertOne1_def outPath1_a staleTree_def tryConvert1_def convertBody1_def
        readFileSync_def ext_a testEnv_def Let_def)
  have "sameFiles (staleTree ''bad'') (staleTree ''bad'')"
    using failed_conversion_writes_nothing
      [of testEnv "[''in'']" "[''out'']" "[''in'', ''a.docx'']" "staleTree ''bad''" 0 0 None
          "staleTree ''bad''" 0 1]
      conv run by blast
  moreover have "lookup (staleTree ''bad'') [''out'', ''a.md''] = None"
    by (simp add: staleTree_def)
  moreover have "\<not> sameFiles blockedTree ?after"
  proof
    assume "sameFiles blockedTree ?after"
    then have "(lookup ?after [''out'', ''public'', ''slides'', ''deck.html''] = Some (File ''<html>''))
             = (lookup blockedTree [''out'', ''public'', ''slides'', ''deck.html''] = Some (File ''<html>''))"
      unfolding sameFiles_def by blast
    then show False
      by (simp add: blockedTree_def)
  qed
  then have "\<exists>html fs2. conversion3 deckEnv blockedTree [''in'', ''deck.pptx''] = Inr html
          \<and> sameFiles blockedTree fs2
          \<and> writeFileSync [''out'', ''public'', ''slides'', ''deck.html''] html fs2 = Inr ?after"
    using failed_conversion_writes_nothing
      [of deckEnv "[''in'']" "[''out'']" "[''in'', ''deck.pptx'']" blockedTree 0 0 None ?after 0 1]
      deck_run deck_paths(1)
    by auto
  ultimately show ?thesis
    using conv run by blast
qed

text \<open>
  The claim as written fails for a deck of the HTML-viewer variant whose second write
  throws. The rendering succeeds and the viewer file is written; the path of the
  Markdown wrapper is a directory, so its write throws inside the same \<open>try\<close>. The file
  is counted as failed, and the viewer file, which did not exist before, stays.
\<close>

theorem wrapper_write_fails_counterexample:
  "convertOne3 deckEnv [''in''] [''out''] [''in'', ''deck.pptx''] (blockedTree, 0, 0)
     = (None,
        (Dir [(''in'', Dir [(''deck.pptx'', File ''zip'')]),
              (''out'', Dir [(''deck.md'', Dir []),
                             (''public'', Dir [(''slides'', Dir [(''deck.html'', File ''<html>'')])])])],
         0, 1))
   \<and> lookup blockedTree [''out'', ''public'', ''slides'', ''deck.html''] = None"
  using deck_run by (simp add: blockedTree_def)

section \<open>The sidebar file\<close>

lemma main1_done:
  assumes "main1 E inp out fs = (Done ok fail, fs')"
  shows "\<exists>fs3 src. buildSidebar1 E fs3 out = Inr src
           \<and> lookup fs' (out @ [''sidebar.ts'']) = Some (File src)"
proof -
  from assms obtain fs3 src where b: "buildSidebar1 E fs3 out = Inr src"
    and w: "writeFileSync (out @ [''sidebar.ts'']) src fs3 = Inr fs'"
    by (auto simp: main1_def Let_def split: if_splits sum.splits prod.splits option.splits)
  from writeFileSync_lookup [OF w] b show ?thesis
    by blast
qed

lemma main3_done:
  assumes "main3 E inp out fs = (Done ok fail, fs')"
  shows "\<exists>fs3 src. buildSidebar3 E fs3 out = Inr src
           \<and> lookup fs' (out @ [''sidebar.ts'']) = Some (File src)"
proof -
  from assms obtain fs3 src where b: "buildSidebar3 E fs3 out = Inr src"
    and w: "writeFileSync (out @ [''sidebar.ts'']) src fs3 = Inr fs'"
    by (auto simp: main3_def Let_def split: if_splits sum.splits prod.splits option.splits)
  from writeFileSync_lookup [OF w] b show ?thesis
    by blast
qed

lemma main1_nothing:
  assumes "main1 E inp out fs = (NothingFound, fs')"
  shows "lookup fs' (out @ [''sidebar.ts'']) = lookup fs (out @ [''sidebar.ts''])"
proof -
  from assms have "mkdirp out fs = Inr fs'"
    by (auto simp: main1_def Let_def split: if_splits sum.splits prod.splits option.splits)
  then show ?thesis
    by (rule mkdirp_below) simp
qed

lemma main3_nothing:
  assumes "main3 E inp out fs = (NothingFound, fs')"
  shows "lookup fs' (out @ [''sidebar.ts'']) = lookup fs (out @ [''sidebar.ts''])"
proof -
  from assms have "mkdirp out fs = Inr fs'"
    by (auto simp: main3_def Let_def split: if_splits sum.splits prod.splits option.splits)
  then show ?thesis
    by (rule mkdirp_below) simp
qed

lemma main1_found:
  assumes "existsSync fs inp" and "mkdirp out fs = Inr fs1" and "walk fs1 inp = Inr found"
    and "filter wanted found \<noteq> []"
  shows "(\<exists>ok fail fs'. main1 E inp out fs = (Done ok fail, fs'))
       \<or> (\<exists>e fs'. main1 E inp out fs = (Uncaught e, fs'))"
  using assms
  by (auto simp: main1_def Let_def split: sum.splits prod.splits option.splits)

lemma main3_found:
  assumes "existsSync fs inp" and "mkdirp out fs = Inr fs1" and "walk fs1 inp = Inr found"
    and "filter wanted found \<noteq> []"
  shows "(\<exists>ok fail fs'. main3 E inp out fs = (Done ok fail, fs'))
       \<or> (\<exists>e fs'. main3 E inp out fs = (Uncaught e, fs'))"
  using assms
  by (auto simp: main3_def Let_def split: sum.splits prod.splits option.splits)

text \<open>
  C2, as amended. A run of the Markdown or of the HTML-viewer variant that reaches its
  end has written the sidebar file at the root of the output directory, with the
  source built from the output tree. A run ends so, or with an uncaught error of the
  file system, whenever its input directory exists, the output directory can be created
  and at least one document or spreadsheet is found. A run that finds none returns early
  and leaves the sidebar file as it was: absent, or with its earlier content.
\<close>

theorem sidebar_written:
  "(main1 E inp out fs = (Done ok fail, fs')
      \<longrightarrow> (\<exists>fs3 src. buildSidebar1 E fs3 out = Inr src
             \<and> lookup fs' (out @ [''sidebar.ts'']) = Some (File src)))
   \<and> (main3 E inp out fs = (Done ok fail, fs')
      \<longrightarrow> (\<exists>fs3 src. buildSidebar3 E fs3 out = Inr src
             \<and> lookup fs' (out @ [''sidebar.ts'']) = Some (File src)))
   \<and> (main1 E inp out fs = (NothingFound, fs')
      \<longrightarrow> lookup fs' (out @ [''sidebar.ts'']) = lookup fs (out @ [''sidebar.ts'']))
   \<and> (main3 E inp out fs = (NothingFound, fs')
      \<longrightarrow> lookup fs' (out @ [''sidebar.ts'']) = lookup fs (out @ [''sidebar.ts'']))
   \<and> (existsSync fs inp \<and> mkdirp out fs = Inr fs1 \<and> walk fs1 inp = Inr found
        \<and> filter wanted found \<noteq> []
      \<longrightarrow> ((\<exists>k l g. main1 E inp out fs = (Done k l, g)) \<or> (\<exists>e g. main1 E inp out fs = (Uncaught e, g)))
        \<and> ((\<exists>k l g. main3 E inp out fs = (Done k l, g)) \<or> (\<exists>e g. main3 E inp out fs = (Uncaught e, g))))"
proof (intro conjI impI)
  assume "main1 E inp out fs = (Done ok fail, fs')"
  then show "\<exists>fs3 src. buildSidebar1 E fs3 out = Inr src
             \<and> lookup fs' (out @ [''sidebar.ts'']) = Some (File src)"
    by (rule main1_done)
next
  assume "main3 E inp out fs = (Done ok fail, fs')"
  then show "\<exists>fs3 src. buildSidebar3 E fs3 out = Inr src
             \<and> lookup fs' (out @ [''sidebar.ts'']) = Some (File src)"
    by (rule main3_done)
next
  assume "main1 E inp out fs = (NothingFound, fs')"
  then show "lookup fs' (out @ [''sidebar.ts'']) = lookup fs (out @ [''sidebar.ts''])"
    by (rule main1_nothing)
next
  assume "main3 E inp out fs = (NothingFound, fs')"
  then show "lookup fs' (out @ [''sidebar.ts'']) = lookup fs (out @ [''sidebar.ts''])"
    by (rule main3_nothing)
next
  assume a: "existsSync fs inp \<and> mkdirp out fs = Inr fs1 \<and> walk fs1 inp = Inr found
        \<and> filter wanted found \<noteq> []"
  then show "(\<exists>k l g. main1 E inp out fs = (Done k l, g)) \<or> (\<exists>e g. main1 E inp out fs = (Uncaught e, g))"
    using main1_found [of fs inp out fs1 found E] by blast
  from a show "(\<exists>k l g. main3 E inp out fs = (Done k l, g)) \<or> (\<exists>e g. main3 E inp out fs = (Uncaught e, g))"
    using main3_found [of fs inp out fs1 found E] by blast
qed

text \<open>
  C2 as stated fails: the input directory exists and holds no document or spreadsheet,
  and the run returns before the sidebar file is written; the output directory stays
  without one.
\<close>

theorem no_files_no_sidebar_counterexample:
  "existsSync emptyInputTree [''in'']
   \<and> main1 testEnv [''in''] [''out''] emptyInputTree
     = (NothingFound, Dir [(''in'', Dir [(''notes.txt'', File ''x'')]), (''out'', Dir [])])
   \<and> main3 testEnv [''in''] [''out''] emptyInputTree
     = (NothingFound, Dir [(''in'', Dir [(''notes.txt'', File ''x'')]), (''out'', Dir [])])
   \<and> lookup (Dir [(''in'', Dir [(''notes.txt'', File ''x'')]), (''out'', Dir [])])
        [''out'', ''sidebar.ts''] = None"
  by (simp add: existsSync_def emptyInputTree_def main1_def main3_def walk_def isDirectory_def
      wanted_def startsWith_def extname_def toLowerCase_def toLower_def)

theorem sidebar_written_witness:
  "main1 testEnv [''in''] [''out''] (staleTree ''raw'')
     = (Done 1 0,
        Dir [(''in'', Dir [(''a.docx'', File ''raw'')]),
             (''out'', Dir [(''old.md'', File ''stale''), (''sub'', Dir [(''x.txt'', File ''y'')]),
                           (''a.md'', File (frontmatter ''a'' ''a.docx'' @ ''body'' @ [nl])),
                           (''sidebar.ts'', File ''export default'')])])
   \<and> (\<exists>src. lookup (snd (main1 testEnv [''in''] [''out''] (staleTree ''raw''))) [''out'', ''sidebar.ts'']
             = Some (File src))"
proof -
  let ?fs' = "Dir [(''in'', Dir [(''a.docx'', File ''raw'')]),
             (''out'', Dir [(''old.md'', File ''stale''), (''sub'', Dir [(''x.txt'', File ''y'')]),
                           (''a.md'', File (frontmatter ''a'' ''a.docx'' @ ''body'' @ [nl])),
                           (''sidebar.ts'', File ''export default'')])]"
  have ext: "toLowerCase (extname ''a.docx'') = ''.docx''"
    using ext_a by simp
  have w: "wanted [''in'', ''a.docx'']" "\<not> isXlsx [''in'', ''a.docx'']"
    by (simp_all add: wanted_def isXlsx_def startsWith_def ext)
  have run: "main1 testEnv [''in''] [''out''] (staleTree ''raw'') = (Done 1 0, ?fs')"
    by (simp add: main1_def existsSync_def staleTree_def walk_def isDirectory_def w
        convertOne1_def outPath1_a tryConvert1_def convertBody1_def readFileSync_def ext
        testEnv_def buildSidebar1_def basenameExt_def Let_def)
  from sidebar_written [of testEnv "[''in'']" "[''out'']" "staleTree ''raw''" 1 0 ?fs'] run
  have "\<exists>fs3 src. buildSidebar1 testEnv fs3 [''out''] = Inr src
           \<and> lookup ?fs' ([''out''] @ [''sidebar.ts'']) = Some (File src)"
    by blast
  with run show ?thesis
    by auto
qed

end
